theory Spec2Isabelle
  imports Complex_Main
begin

section \<open>Python values and exceptions\<close>

text \<open>
  The parser of \<^verbatim>\<open>combat_logs/log_parser.py\<close> raises \<^verbatim>\<open>ValueError\<close> with a message,
  fails an \<^verbatim>\<open>assert\<close>, and can fail in a dictionary or group lookup. Every one of
  these is a value of \<open>error\<close>; a function that can raise returns \<open>error + 'a\<close>.
  A Python string that may be \<^verbatim>\<open>None\<close> is a \<open>string option\<close>.
\<close>

datatype error =
    ValueError string
  | AssertionError
  | KeyError string
  | IndexError string
  | TypeError string

definition bnd :: "error + 'a \<Rightarrow> ('a \<Rightarrow> error + 'b) \<Rightarrow> error + 'b" where
  "bnd x f = (case x of Inl e \<Rightarrow> Inl e | Inr v \<Rightarrow> f v)"

text \<open>
  Numbers: \<^verbatim>\<open>int(s)\<close> gives an unbounded integer. \<^verbatim>\<open>float(s)\<close> gives a binary64
  number (a C \<^verbatim>\<open>double\<close>): CPython 2.7 converts a decimal numeral with correct
  rounding, to the nearest binary64 number, a tie going to the even significand, and to
  \<^verbatim>\<open>inf\<close> when the rounded value is beyond the largest finite number. A finite float
  is held as the rational number it denotes.
\<close>

datatype number = PyInt int | PyFloat rat | PyInf

definition digits :: string where
  "digits = ''0123456789''"

fun digit_val :: "char \<Rightarrow> nat" where
  "digit_val c = length (takeWhile (\<lambda>d. d \<noteq> c) digits)"

definition dec_val :: "string \<Rightarrow> nat" where
  "dec_val s = foldl (\<lambda>n c. 10 * n + digit_val c) 0 s"

definition is_digits :: "string \<Rightarrow> bool" where
  "is_digits s = (s \<noteq> [] \<and> list_all (\<lambda>c. c \<in> set digits) s)"

text \<open>
  \<^verbatim>\<open>int(x)\<close> and \<^verbatim>\<open>float(x)\<close> on the strings the patterns below can capture:
  \<^verbatim>\<open>\d+\<close> for \<^verbatim>\<open>int\<close>, \<^verbatim>\<open>\d+\.\d+\<close> for \<^verbatim>\<open>float\<close>. Python accepts a few more
  spellings (a sign, surrounding blanks, an exponent); no pattern captures one.
\<close>

definition py_int :: "string option \<Rightarrow> error + int" where
  "py_int x =
     (case x of
        None \<Rightarrow> Inl (TypeError ''int() argument must be a string or a number'')
      | Some s \<Rightarrow>
          if is_digits s then Inr (int (dec_val s))
          else Inl (ValueError (''invalid literal for int() with base 10: '' @ s)))"

text \<open>
  The binary64 number nearest to the fraction \<open>N / D\<close>, for \<open>0 \<le> N\<close> and \<open>0 < D\<close>. A
  positive binary64 number is \<open>m * 2 ^ p\<close> with \<open>m < 2 ^ 53\<close> and \<open>- 1074 \<le> p \<le> 971\<close>.
  With \<open>2 ^ e \<le> N / D < 2 ^ (e + 1)\<close> the exponent of the last place is
  \<open>p = max e (- 1022) - 52\<close> (below \<open>2 ^ (- 1022)\<close> the numbers are subnormal and their
  spacing stays \<open>2 ^ (- 1074)\<close>), and \<open>m\<close> is \<open>N / (D * 2 ^ p)\<close> rounded to the nearest
  integer, a half to the even one. The result is \<^verbatim>\<open>inf\<close> when \<open>m * 2 ^ p\<close> reaches
  \<open>2 ^ 1024\<close>.
\<close>

function bit_length :: "int \<Rightarrow> nat" where
  "bit_length n = (if n \<le> 0 then 0 else Suc (bit_length (n div 2)))"
  by pat_completeness auto
termination
  by (relation "measure nat") auto

definition round_half_even :: "int \<Rightarrow> int \<Rightarrow> int" where
  "round_half_even num den =
     (let q = num div den; r = num mod den
      in if 2 * r < den then q
         else if den < 2 * r then q + 1
         else if even q then q else q + 1)"

definition binary64_exponent :: "int \<Rightarrow> int \<Rightarrow> int" where
  "binary64_exponent N D =
     (let e0 = int (bit_length N) - int (bit_length D);
          e = (if (if 0 \<le> e0 then D * 2 ^ nat e0 \<le> N else D \<le> N * 2 ^ nat (- e0))
               then e0 else e0 - 1)
      in max e (- 1022) - 52)"

definition binary64 :: "int \<Rightarrow> int \<Rightarrow> number" where
  "binary64 N D =
     (if N = 0 then PyFloat 0
      else
        let p = binary64_exponent N D;
            m = (if 0 \<le> p then round_half_even N (D * 2 ^ nat p)
                 else round_half_even (N * 2 ^ nat (- p)) D)
        in if 971 < p \<or> (p = 971 \<and> 2 ^ 53 \<le> m) then PyInf
           else if 0 \<le> p then PyFloat (of_int (m * 2 ^ nat p))
           else PyFloat (of_int m / of_int (2 ^ nat (- p))))"

text \<open>The distance between neighbouring binary64 numbers at the exponent \<open>p\<close>.\<close>

definition ulp :: "int \<Rightarrow> rat" where
  "ulp p = (if 0 \<le> p then 2 ^ nat p else 1 / 2 ^ nat (- p))"

text \<open>
  \<^verbatim>\<open>float(s)\<close> on digits, a point and digits: the numeral \<open>ip.fp\<close> denotes the fraction
  of the integer written \<open>ip fp\<close> over \<open>10 ^ length fp\<close>.
\<close>

definition py_float :: "string \<Rightarrow> error + number" where
  "py_float s =
     (let ip = takeWhile (\<lambda>c. c \<noteq> CHR ''.'') s;
          fp = drop (Suc (length ip)) s
      in if is_digits ip \<and> is_digits fp \<and> length ip < length s
         then Inr (binary64 (int (dec_val (ip @ fp))) (10 ^ length fp))
         else Inl (ValueError (''could not convert string to float: '' @ s)))"

text \<open>\<^verbatim>\<open>str.rstrip()\<close>: drops trailing blanks (space, tab, LF, VT, FF, CR).\<close>

definition whitespace :: string where
  "whitespace = [CHR 0x20, CHR 0x09, CHR 0x0A, CHR 0x0B, CHR 0x0C, CHR 0x0D]"

definition rstrip :: "string \<Rightarrow> string" where
  "rstrip s = rev (dropWhile (\<lambda>c. c \<in> set whitespace) (rev s))"

section \<open>Regular expressions of the \<^verbatim>\<open>re\<close> module\<close>

text \<open>
  The fragment of Python's regular expressions the parser uses, with the semantics of
  the backtracking matcher: alternatives are tried left to right, a greedy quantifier
  tries the longest repetition first, a lazy one the shortest, and the first way to
  match the whole pattern wins. Quantifiers \<^verbatim>\<open>*\<close>, \<^verbatim>\<open>*?\<close>, \<^verbatim>\<open>+\<close> and \<^verbatim>\<open>{n}\<close> are
  applied to single-character items only (as everywhere in the source).
\<close>

datatype atom =
    AnyChar             \<comment> \<open>\<^verbatim>\<open>.\<close>: any character but a newline\<close>
  | Digit               \<comment> \<open>\<^verbatim>\<open>\d\<close>\<close>
  | OneOf string        \<comment> \<open>\<^verbatim>\<open>[...]\<close>\<close>
  | NoneOf string       \<comment> \<open>\<^verbatim>\<open>[^...]\<close>\<close>

fun atom_ok :: "atom \<Rightarrow> char \<Rightarrow> bool" where
  "atom_ok AnyChar c = (c \<noteq> CHR 0x0A)"
| "atom_ok Digit c = (c \<in> set digits)"
| "atom_ok (OneOf cs) c = (c \<in> set cs)"
| "atom_ok (NoneOf cs) c = (c \<notin> set cs)"

datatype regex =
    Lit string          \<comment> \<open>literal text\<close>
  | One atom            \<comment> \<open>one character of a class\<close>
  | Star atom           \<comment> \<open>\<^verbatim>\<open>a*\<close>\<close>
  | Lazy atom           \<comment> \<open>\<^verbatim>\<open>a*?\<close>\<close>
  | Plus atom           \<comment> \<open>\<^verbatim>\<open>a+\<close>\<close>
  | Rep nat atom        \<comment> \<open>\<^verbatim>\<open>a{n}\<close>\<close>
  | Seq regex regex
  | Alt regex regex     \<comment> \<open>\<^verbatim>\<open>r|s\<close>\<close>
  | Opt regex           \<comment> \<open>\<^verbatim>\<open>(?:r)?\<close>\<close>
  | Group string regex  \<comment> \<open>\<^verbatim>\<open>(?P<name>r)\<close>\<close>
  | NotAhead regex      \<comment> \<open>\<^verbatim>\<open>(?!r)\<close>\<close>
  | Backref string      \<comment> \<open>\<^verbatim>\<open>\n\<close>, by the name of group n\<close>
  | Bol                 \<comment> \<open>\<^verbatim>\<open>^\<close>\<close>
  | Eol                 \<comment> \<open>\<^verbatim>\<open>$\<close>: at the end, or before a final newline\<close>

text \<open>A position is the number of characters consumed and the text that remains.\<close>

type_synonym pos = "nat \<times> string"
type_synonym caps = "string \<rightharpoonup> string"

fun lit :: "string \<Rightarrow> pos \<Rightarrow> pos option" where
  "lit [] p = Some p"
| "lit (c # cs) (i, []) = None"
| "lit (c # cs) (i, x # xs) = (if c = x then lit cs (Suc i, xs) else None)"

fun rep :: "nat \<Rightarrow> atom \<Rightarrow> pos \<Rightarrow> pos option" where
  "rep 0 a p = Some p"
| "rep (Suc n) a (i, []) = None"
| "rep (Suc n) a (i, x # xs) = (if atom_ok a x then rep n a (Suc i, xs) else None)"

fun star_greedy :: "atom \<Rightarrow> pos \<Rightarrow> (pos \<Rightarrow> 'r option) \<Rightarrow> 'r option" where
  "star_greedy a (i, []) k = k (i, [])"
| "star_greedy a (i, x # xs) k =
     (if atom_ok a x
      then (case star_greedy a (Suc i, xs) k of
              Some r \<Rightarrow> Some r
            | None \<Rightarrow> k (i, x # xs))
      else k (i, x # xs))"

fun star_lazy :: "atom \<Rightarrow> pos \<Rightarrow> (pos \<Rightarrow> 'r option) \<Rightarrow> 'r option" where
  "star_lazy a (i, []) k = k (i, [])"
| "star_lazy a (i, x # xs) k =
     (case k (i, x # xs) of
        Some r \<Rightarrow> Some r
      | None \<Rightarrow> if atom_ok a x then star_lazy a (Suc i, xs) k else None)"

text \<open>
  \<open>rx r p c k\<close> matches \<open>r\<close> at position \<open>p\<close> with the groups \<open>c\<close> captured so far and
  hands every way to match, in the matcher's order of preference, to the continuation
  \<open>k\<close> (the rest of the pattern) until one succeeds.
\<close>

fun rx :: "regex \<Rightarrow> pos \<Rightarrow> caps \<Rightarrow> (pos \<Rightarrow> caps \<Rightarrow> caps option) \<Rightarrow> caps option" where
  "rx (Lit l) p c k = (case lit l p of None \<Rightarrow> None | Some p' \<Rightarrow> k p' c)"
| "rx (One a) p c k = (case rep 1 a p of None \<Rightarrow> None | Some p' \<Rightarrow> k p' c)"
| "rx (Star a) p c k = star_greedy a p (\<lambda>p'. k p' c)"
| "rx (Lazy a) p c k = star_lazy a p (\<lambda>p'. k p' c)"
| "rx (Plus a) p c k =
     (case rep 1 a p of None \<Rightarrow> None | Some p' \<Rightarrow> star_greedy a p' (\<lambda>p''. k p'' c))"
| "rx (Rep n a) p c k = (case rep n a p of None \<Rightarrow> None | Some p' \<Rightarrow> k p' c)"
| "rx (Seq r1 r2) p c k = rx r1 p c (\<lambda>p' c'. rx r2 p' c' k)"
| "rx (Alt r1 r2) p c k =
     (case rx r1 p c k of Some m \<Rightarrow> Some m | None \<Rightarrow> rx r2 p c k)"
| "rx (Opt r) p c k = (case rx r p c k of Some m \<Rightarrow> Some m | None \<Rightarrow> k p c)"
| "rx (Group n r) p c k =
     rx r p c (\<lambda>p' c'. k p' (c'(n \<mapsto> take (fst p' - fst p) (snd p))))"
| "rx (NotAhead r) p c k =
     (case rx r p c (\<lambda>p' c'. Some c') of Some m \<Rightarrow> None | None \<Rightarrow> k p c)"
| "rx (Backref n) p c k =
     (case c n of
        None \<Rightarrow> None
      | Some s \<Rightarrow> (case lit s p of None \<Rightarrow> None | Some p' \<Rightarrow> k p' c))"
| "rx Bol p c k = (if fst p = 0 then k p c else None)"
| "rx Eol p c k = (if snd p = [] \<or> snd p = [CHR 0x0A] then k p c else None)"

fun cat :: "regex list \<Rightarrow> regex" where
  "cat [] = Lit []"
| "cat [r] = r"
| "cat (r # rs) = Seq r (cat rs)"

fun alts :: "regex \<Rightarrow> regex list \<Rightarrow> regex" where
  "alts r [] = r"
| "alts r (r' # rs) = Alt r (alts r' rs)"

text \<open>The names of the groups of a pattern, in the order of their opening parentheses.\<close>

fun group_names :: "regex \<Rightarrow> string list" where
  "group_names (Seq r1 r2) = group_names r1 @ group_names r2"
| "group_names (Alt r1 r2) = group_names r1 @ group_names r2"
| "group_names (Opt r) = group_names r"
| "group_names (Group n r) = n # group_names r"
| "group_names (NotAhead r) = group_names r"
| "group_names r = []"

text \<open>
  A match object: the group names of its pattern and the captures. \<^verbatim>\<open>m.group(n)\<close>
  raises \<^verbatim>\<open>IndexError\<close> for a name the pattern does not have and is \<^verbatim>\<open>None\<close> for
  a group that took no part in the match; \<^verbatim>\<open>m.groupdict()\<close> has a key for every
  named group of the pattern.
\<close>

record match_obj =
  names :: "string list"
  captured :: caps

definition re_match :: "regex \<Rightarrow> string \<Rightarrow> match_obj option" where
  "re_match r s =
     map_option (\<lambda>c. \<lparr>names = group_names r, captured = c\<rparr>)
       (rx r (0, s) Map.empty (\<lambda>p c. Some c))"

fun search_from :: "regex \<Rightarrow> pos \<Rightarrow> caps option" where
  "search_from r (i, []) = rx r (i, []) Map.empty (\<lambda>p c. Some c)"
| "search_from r (i, x # xs) =
     (case rx r (i, x # xs) Map.empty (\<lambda>p c. Some c) of
        Some c \<Rightarrow> Some c
      | None \<Rightarrow> search_from r (Suc i, xs))"

definition re_search :: "regex \<Rightarrow> string \<Rightarrow> match_obj option" where
  "re_search r s =
     map_option (\<lambda>c. \<lparr>names = group_names r, captured = c\<rparr>) (search_from r (0, s))"

definition match_group :: "match_obj \<Rightarrow> string \<Rightarrow> error + string option" where
  "match_group m n =
     (if n \<in> set (names m) then Inr (captured m n) else Inl (IndexError ''no such group''))"

definition in_groupdict :: "string \<Rightarrow> match_obj \<Rightarrow> bool" where
  "in_groupdict n m = (n \<in> set (names m))"

definition getitem :: "match_obj \<Rightarrow> string \<Rightarrow> error + string option" where
  "getitem m n = (if n \<in> set (names m) then Inr (captured m n) else Inl (KeyError n))"

text \<open>The loop \<^verbatim>\<open>for rex in RES: m = rex.match(data); if m is not None: break\<close>.\<close>

fun first_match :: "regex list \<Rightarrow> string \<Rightarrow> match_obj option" where
  "first_match [] s = None"
| "first_match (r # rs) s =
     (case re_match r s of Some m \<Rightarrow> Some m | None \<Rightarrow> first_match rs s)"


fun traverse :: "('a \<Rightarrow> error + 'b) \<Rightarrow> 'a list \<Rightarrow> error + 'b list" where
  "traverse f [] = Inr []"
| "traverse f (x # xs) = bnd (f x) (\<lambda>y. bnd (traverse f xs) (\<lambda>ys. Inr (y # ys)))"

section \<open>Timestamps\<close>

text \<open>
  \<^verbatim>\<open>datetime.datetime(y, mo, d, h, mi, s, tzinfo = UTC())\<close>: the constructor of the
  standard library checks the calendar ranges (date fields first) and raises
  \<^verbatim>\<open>ValueError\<close>. The time zone is always UTC and is left out of the record.
\<close>

record datetime =
  year :: int
  month :: int
  day :: int
  hour :: int
  minute :: int
  second :: int

definition is_leap :: "int \<Rightarrow> bool" where
  "is_leap y = (y mod 4 = 0 \<and> (if y mod 100 = 0 then y mod 400 = 0 else True))"

definition days_in_month :: "int \<Rightarrow> int \<Rightarrow> int" where
  "days_in_month y m =
     (if m = 2 then (if is_leap y then 29 else 28)
      else if m \<in> {4, 6, 9, 11} then 30 else 31)"

definition mk_datetime :: "int \<Rightarrow> int \<Rightarrow> int \<Rightarrow> int \<Rightarrow> int \<Rightarrow> int \<Rightarrow> error + datetime" where
  "mk_datetime y mo d h mi s =
     (if y < 1 \<or> 9999 < y then Inl (ValueError ''year is out of range'')
      else if mo < 1 \<or> 12 < mo then Inl (ValueError ''month must be in 1..12'')
      else if d < 1 \<or> days_in_month y mo < d then Inl (ValueError ''day is out of range for month'')
      else if h < 0 \<or> 23 < h then Inl (ValueError ''hour must be in 0..23'')
      else if mi < 0 \<or> 59 < mi then Inl (ValueError ''minute must be in 0..59'')
      else if s < 0 \<or> 59 < s then Inl (ValueError ''second must be in 0..59'')
      else Inr \<lparr>year = y, month = mo, day = d, hour = h, minute = mi, second = s\<rparr>)"

definition TIMESTAMP_PATTERN :: regex where
  "TIMESTAMP_PATTERN =
     cat [Group ''year'' (Rep 4 Digit), Lit ''.'', Group ''month'' (Rep 2 Digit), Lit ''.'',
          Group ''day'' (Rep 2 Digit), Lit '' '', Group ''hour'' (Rep 2 Digit), Lit '':'',
          Group ''min'' (Rep 2 Digit), Lit '':'', Group ''sec'' (Rep 2 Digit)]"

text \<open>
  \<^verbatim>\<open>y, mo, d, h, mi, s = map(int, m.group('year', 'month', 'day', 'hour', 'min', 'sec'))\<close>
  followed by the construction of the timestamp.
\<close>

definition timestamp_of :: "match_obj \<Rightarrow> error + datetime" where
  "timestamp_of m =
     bnd (traverse (match_group m) [''year'', ''month'', ''day'', ''hour'', ''min'', ''sec''])
       (\<lambda>gs. bnd (traverse py_int gs)
         (\<lambda>vs. case vs of
                  [y, mo, d, h, mi, s] \<Rightarrow> mk_datetime y mo d h mi s
                | _ \<Rightarrow> Inl (ValueError ''need more than 0 values to unpack'')))"


section \<open>Log entries\<close>

text \<open>
  The constants \<^verbatim>\<open>LogEntry.UNKNOWN\<close> ... \<^verbatim>\<open>LogEntry.NONE\<close> and \<^verbatim>\<open>Log.UNKNOWN\<close>,
  \<^verbatim>\<open>Log.COMPLEX\<close>, \<^verbatim>\<open>Log.SIMPLIFIED\<close>, \<^verbatim>\<open>Log.V3\<close>.
\<close>

datatype entry_type = UNKNOWN | COMBAT | INFO | NOTIFY | WARNING | QUESTION | HINT | NONE

datatype log_type = LOG_UNKNOWN | COMPLEX | SIMPLIFIED | V3

text \<open>
  The four attributes a \<^verbatim>\<open>CombatLogEntry\<close> adds to a \<^verbatim>\<open>LogEntry\<close>. A \<^verbatim>\<open>LogEntry\<close> that
  is not a \<^verbatim>\<open>CombatLogEntry\<close> has \<open>combat = None\<close>.
\<close>

record combat =
  target :: "string option"
  attacker :: "string option"
  weapon :: "string option"
  damage :: number

record LogEntry =
  timestamp :: datetime
  entry_type :: entry_type
  data :: "string option"
  combat :: "combat option"

section \<open>The three dialects of combat messages\<close>

definition color_tag :: regex where
  "color_tag = cat [Lit ''<color'', Star (NoneOf ''>''), Lit ''>'']"

definition font_tag :: regex where
  "font_tag = cat [Lit ''<font'', Star (NoneOf ''>''), Lit ''>'']"

subsection \<open>Complex\<close>

text \<open>
  A verb phrase is a format string with the slots \<^verbatim>\<open>%(attacker)s\<close>, \<^verbatim>\<open>%(target)s\<close>
  and \<^verbatim>\<open>%(damage)s\<close>: a function of the three patterns put there.
\<close>

definition VERB_PHRASES :: "(regex \<Rightarrow> regex \<Rightarrow> regex \<Rightarrow> regex) list" where
  "VERB_PHRASES =
    [\<lambda>A T D. cat [A, Lit '' '', Opt (Alt (Lit ''lightly '') (Lit ''heavily '')), Lit ''hits '',
                  T, Lit '', '', D, Lit ''.'', Eol],
     \<lambda>A T D. cat [A, Lit '' misses '', T, Lit '' completely.'', NotAhead D, Eol],
     \<lambda>A T D. cat [A, Lit '' aims well at '', T, Lit '', '', D, Lit ''.'', Eol],
     \<lambda>A T D. cat [A, Lit '' barely scratches '', T, Lit '', '', D, Lit ''.'', Eol],
     \<lambda>A T D. cat [A, Lit '' places an excellent hit on '', T, Lit '', '', D, Lit ''.'', Eol],
     \<lambda>A T D. cat [A, Lit '' lands a hit on '', T, Lit '' which glances off, '', D,
                  Lit ''.'', Eol],
     \<lambda>A T D. cat [A, Lit '' is well aimed at '', T, Lit '', '', D, Lit ''.'', Eol],
     \<lambda>A T D. cat [A, Lit '' barely misses '', T, Lit ''.'', NotAhead D, Eol],
     \<lambda>A T D. cat [A, Lit '' glances off '', T, Lit '', '', D, Lit ''.'', Eol],
     \<lambda>A T D. cat [A, Lit '' strikes '', T, Lit '' perfectly, '', D, Lit ''.'', Eol],
     \<lambda>A T D. cat [A, Lit '' perfectly strikes '', T, Lit '', '', D, Lit ''.'', Eol]]"

definition ATTACKER_PATTERNS :: "regex list" where
  "ATTACKER_PATTERNS =
    [cat [Group ''attacker'' (Lit ''You''), Lit ''r '', Opt (Lit ''group of ''),
          Group ''weapon'' (Lazy AnyChar)],
     cat [Group ''weapon'' (Lazy AnyChar), Lit '' belonging to '',
          Group ''attacker'' (Lazy AnyChar)],
     cat [Group ''attacker'' (Lazy AnyChar), Group ''weapon'' (Lit [])]]"

definition DAMAGE_PATTERN :: regex where
  "DAMAGE_PATTERN =
     cat [Lazy (NoneOf '',''),
          Opt (Group ''damage'' (cat [Plus Digit, Lit ''.'', Plus Digit])),
          Opt (Lit ''</b>''), Lit '' damage'']"

definition VERB_PHRASE_RES :: "regex list" where
  "VERB_PHRASE_RES =
     [vp (Seq (Opt color_tag) a) (Group ''target'' (Lazy AnyChar)) DAMAGE_PATTERN.
        vp \<leftarrow> VERB_PHRASES, a \<leftarrow> ATTACKER_PATTERNS]"

definition quotes3 :: string where
  "quotes3 = replicate 3 (CHR 0x22)"

definition parse_complex :: "string \<Rightarrow> error + combat" where
  "parse_complex d =
     (case first_match VERB_PHRASE_RES d of
        None \<Rightarrow> Inl (ValueError (''Could not parse '' @ quotes3 @ d @ quotes3 @ '' as complex.''))
      | Some m \<Rightarrow>
          bnd (match_group m ''target'') (\<lambda>t.
          bnd (match_group m ''attacker'') (\<lambda>a.
          bnd (match_group m ''weapon'') (\<lambda>w.
          bnd (match_group m ''damage'') (\<lambda>x.
          bnd (case x of
                 None \<Rightarrow> Inr (PyInt 0)
               | Some ds \<Rightarrow> py_float ds) (\<lambda>dmg.
          Inr \<lparr>target = t, attacker = a, weapon = w, damage = dmg\<rparr>))))))"

subsection \<open>Simplified\<close>

definition SIMPLIFIED_PHRASES :: "(regex \<Rightarrow> regex) list" where
  "SIMPLIFIED_PHRASES =
    [\<lambda>SD. cat [Opt color_tag, Group ''attacker'' (Star AnyChar), Lit '' '',
                Alt (Lit ''hits'') (Lit ''strikes''), Lit '' '', Group ''target'' (Lit ''you''),
                Lit '' for '', SD, Eol],
     \<lambda>SD. cat [Opt color_tag, Group ''weapon'' (Star AnyChar), Lit '' '',
                Alt (Lit ''hits'') (Lit ''strikes''), Lit '' '', Group ''target'' (Star AnyChar),
                Lit '' for '', SD, Eol],
     \<lambda>SD. cat [Opt color_tag, Group ''attacker'' (Star AnyChar), Lit '' misses '',
                Group ''target'' (Lit ''you''), Group ''damage'' (Lit []), Eol],
     \<lambda>SD. cat [Opt color_tag, Group ''weapon'' (Star AnyChar), Lit '' misses '',
                Group ''target'' (Star (NoneOf ''.'')), Group ''damage'' (Lit []), Eol],
     \<lambda>SD. cat [Opt color_tag, Group ''attacker'' (Star AnyChar), Lit '' miss '',
                Group ''target'' (Lit ''you''), Group ''damage'' (Lit []), Eol],
     \<lambda>SD. cat [Opt color_tag, Group ''weapon'' (Star AnyChar), Lit '' miss '',
                Group ''target'' (Star (NoneOf ''.'')), Group ''damage'' (Lit []), Eol]]"

definition simple_damage :: regex where
  "simple_damage =
     cat [Lit ''<b>'', Group ''damage'' (Plus Digit), Lit ''</b> damage'',
          Opt (Lit '' (Wrecking!)'')]"

definition SIMPLIFIED_PHRASE_RES :: "regex list" where
  "SIMPLIFIED_PHRASE_RES = [sp simple_damage. sp \<leftarrow> SIMPLIFIED_PHRASES]"

text \<open>Python's truth value of a string or \<^verbatim>\<open>None\<close>.\<close>

definition truthy :: "string option \<Rightarrow> bool" where
  "truthy x = (case x of None \<Rightarrow> False | Some s \<Rightarrow> s \<noteq> [])"

definition parse_simple :: "string \<Rightarrow> error + combat" where
  "parse_simple d =
     (case first_match SIMPLIFIED_PHRASE_RES d of
        None \<Rightarrow> Inl (ValueError (''Could not parse '' @ quotes3 @ d @ quotes3 @ '' as simple.''))
      | Some m \<Rightarrow>
          bnd (match_group m ''target'') (\<lambda>t.
          bnd (if t = Some ''you''
               then bnd (match_group m ''attacker'') (\<lambda>a. Inr (a, Some []))
               else bnd (match_group m ''weapon'') (\<lambda>w. Inr (Some ''You'', w))) (\<lambda>(a, w).
          bnd (match_group m ''damage'') (\<lambda>x.
          bnd (if truthy x then py_int x else Inr 0) (\<lambda>n.
          Inr \<lparr>target = t, attacker = a, weapon = w, damage = PyInt n\<rparr>)))))"

subsection \<open>V3\<close>

text \<open>
  In the second phrase \<^verbatim>\<open>\2\<close> refers to the second group, which is \<^verbatim>\<open>weapon\<close>.
  The \<^verbatim>\<open>assert\<close> statement of \<^verbatim>\<open>_parse_v3\<close> is executed (the interpreter runs
  without \<^verbatim>\<open>-O\<close>).
\<close>

definition V3_PHRASES :: "regex list" where
  "V3_PHRASES =
    [cat [color_tag, Lit ''<b>'', Group ''damage'' (Plus (OneOf digits)), Lit ''</b> '',
          color_tag, font_tag, Group ''preposition'' (Star AnyChar), Lit ''</font> <b>'',
          color_tag, Group ''object'' (Star AnyChar), Lit ''</b>'', font_tag, color_tag,
          Opt (cat [Lit '' - '', Group ''weapon'' (Star AnyChar)]), Lit '' - '',
          alts (Lit ''Glances Off'') [Lit ''Grazes'', Lit ''Hits'', Lit ''Penetrates'',
            Lit ''Smashes'', Lit ''Wrecks''], Eol],
     cat [Group ''attacker'' (Lit ''You''), Lit ''r '', Group ''weapon'' (Star AnyChar),
          Lit '' misses '', Group ''target'' (Star AnyChar), Lit '' completely - '',
          Backref ''weapon'', Eol],
     cat [Group ''attacker'' (Star AnyChar), Lit '' misses '', Group ''target'' (Lit ''you''),
          Lit '' completely'', Eol],
     cat [color_tag, Lit ''<b>'', Group ''ew'' (Star AnyChar), Lit ''</b> '', color_tag,
          font_tag, Lit ''from</font> '', color_tag, Lit ''<b>'',
          Group ''attacker'' (Star AnyChar), Lit ''</b> '', color_tag, font_tag,
          Lit ''to <b>'', color_tag, Lit ''</font>'', Group ''target'' (Star AnyChar),
          Lit ''!'', Eol]]"

definition V3_PHRASE_RES :: "regex list" where
  "V3_PHRASE_RES = V3_PHRASES"

definition parse_v3 :: "string \<Rightarrow> error + combat" where
  "parse_v3 d =
     (case first_match V3_PHRASE_RES d of
        None \<Rightarrow> Inl (ValueError (''Could not parse '' @ quotes3 @ d @ quotes3 @ '' as V3''))
      | Some m \<Rightarrow>
          bnd (if in_groupdict ''preposition'' m
               then bnd (getitem m ''preposition'') (\<lambda>p.
                      if p = Some ''to'' \<or> p = Some ''from''
                      then if p = Some ''to''
                           then bnd (getitem m ''object'') (\<lambda>obj. Inr (obj, Some ''You''))
                           else bnd (getitem m ''object'') (\<lambda>obj. Inr (Some ''you'', obj))
                      else Inl AssertionError)
               else bnd (getitem m ''target'') (\<lambda>t.
                      if t = Some ''you''
                      then bnd (getitem m ''attacker'') (\<lambda>a. Inr (t, a))
                      else Inr (t, Some ''You''))) (\<lambda>(t, a).
          bnd (if t = Some ''you'' then Inr (Some []) else getitem m ''weapon'') (\<lambda>w.
          bnd (if in_groupdict ''damage'' m
               then bnd (getitem m ''damage'') (\<lambda>x. py_int x)
               else Inr 0) (\<lambda>n.
          Inr \<lparr>target = t, attacker = a, weapon = w, damage = PyInt n\<rparr>))))"

subsection \<open>The dialect of a log\<close>

text \<open>
  \<^verbatim>\<open>CombatLogEntry._parse_data\<close>: the result is the parsed attributes and the log's
  \<^verbatim>\<open>log_type\<close> after the call. \<^verbatim>\<open>except ValueError\<close> catches a \<^verbatim>\<open>ValueError\<close> only.
\<close>

fun parse_data :: "log_type \<Rightarrow> string \<Rightarrow> error + (combat \<times> log_type)" where
  "parse_data V3 d = bnd (parse_v3 d) (\<lambda>e. Inr (e, V3))"
| "parse_data COMPLEX d = bnd (parse_complex d) (\<lambda>e. Inr (e, COMPLEX))"
| "parse_data SIMPLIFIED d = bnd (parse_simple d) (\<lambda>e. Inr (e, SIMPLIFIED))"
| "parse_data LOG_UNKNOWN d =
     (case parse_v3 d of
        Inr e \<Rightarrow> Inr (e, V3)
      | Inl (ValueError _) \<Rightarrow>
          (case parse_simple d of
             Inr e \<Rightarrow> Inr (e, SIMPLIFIED)
           | Inl (ValueError _) \<Rightarrow> bnd (parse_complex d) (\<lambda>e. Inr (e, COMPLEX))
           | Inl x \<Rightarrow> Inl x)
      | Inl x \<Rightarrow> Inl x)"


section \<open>Lines and logs\<close>

definition LOG_LINE_RE :: regex where
  "LOG_LINE_RE =
     cat [Bol, Lit ''[ '', TIMESTAMP_PATTERN, Lit '' ] ('', Group ''type'' (Plus (NoneOf '')'')),
          Lit '') '', Group ''data'' (Plus AnyChar), Eol]"

definition py_str :: "string option \<Rightarrow> string" where
  "py_str x = (case x of None \<Rightarrow> ''None'' | Some s \<Rightarrow> s)"

text \<open>
  \<^verbatim>\<open>CombatLogEntry(timestamp, data, log)\<close>: the constructor stores the three attributes
  of a \<^verbatim>\<open>LogEntry\<close> and calls \<^verbatim>\<open>_parse_data(log)\<close>, which may set \<^verbatim>\<open>log.log_type\<close>.
\<close>

definition CombatLogEntry ::
  "datetime \<Rightarrow> string option \<Rightarrow> log_type \<Rightarrow> error + (LogEntry \<times> log_type)" where
  "CombatLogEntry ts dat lt =
     (case dat of
        None \<Rightarrow> Inl (TypeError ''expected string or buffer'')
      | Some d \<Rightarrow>
          bnd (parse_data lt d) (\<lambda>(c, lt').
            Inr (\<lparr>timestamp = ts, entry_type = COMBAT, data = dat, combat = Some c\<rparr>, lt')))"

text \<open>
  \<^verbatim>\<open>LogEntry.parse_line(line, log)\<close>: the result is \<^verbatim>\<open>None\<close> or the entry, and the
  log's \<^verbatim>\<open>log_type\<close> after the call.
\<close>

definition parse_line :: "string \<Rightarrow> log_type \<Rightarrow> error + (LogEntry option \<times> log_type)" where
  "parse_line line lt =
     (case re_match LOG_LINE_RE line of
        None \<Rightarrow> Inr (None, lt)
      | Some m \<Rightarrow>
          bnd (match_group m ''type'') (\<lambda>ety.
          bnd (timestamp_of m) (\<lambda>ts.
          bnd (match_group m ''data'') (\<lambda>dat.
          if ety = Some ''combat''
          then bnd (CombatLogEntry ts dat lt) (\<lambda>(e, lt'). Inr (Some e, lt'))
          else
            bnd (if ety = Some ''info'' then Inr INFO
                 else if ety = Some ''notify'' then Inr NOTIFY
                 else if ety = Some ''warning'' then Inr WARNING
                 else if ety = Some ''question'' then Inr QUESTION
                 else if ety = Some ''hint'' then Inr HINT
                 else if ety = Some ''None'' then Inr NONE
                 else Inl (ValueError (''Unknown log entry type '' @ [CHR 0x22] @ py_str ety
                             @ [CHR 0x22] @ ''.''))) (\<lambda>t.
            Inr (Some \<lparr>timestamp = ts, entry_type = t, data = dat, combat = None\<rparr>, lt))))))"

record Log =
  listener :: "string option"
  start_time :: datetime
  log_type :: log_type
  log_entries :: "LogEntry list"

text \<open>
  The entries of \<^verbatim>\<open>Log.__init__\<close>:
  \<^verbatim>\<open>list(itertools.ifilter(None, (LogEntry.parse_line(l.rstrip(), self) for l in infile)))\<close>.
  The lines are parsed in order, each with the \<^verbatim>\<open>log_type\<close> the lines before it left;
  \<^verbatim>\<open>ifilter(None, ...)\<close> drops the \<^verbatim>\<open>None\<close> results; an exception ends the construction.
\<close>

fun read_entries :: "log_type \<Rightarrow> string list \<Rightarrow> error + (log_type \<times> LogEntry list)" where
  "read_entries lt [] = Inr (lt, [])"
| "read_entries lt (l # ls) =
     bnd (parse_line (rstrip l) lt) (\<lambda>(r, lt').
     bnd (read_entries lt' ls) (\<lambda>(lt'', es).
     Inr (lt'', (case r of None \<Rightarrow> es | Some e \<Rightarrow> e # es))))"

definition Log_init :: "string option \<Rightarrow> datetime \<Rightarrow> string list \<Rightarrow> error + Log" where
  "Log_init lis st infile =
     bnd (read_entries LOG_UNKNOWN infile) (\<lambda>(lt, es).
     Inr \<lparr>listener = lis, start_time = st, log_type = lt, log_entries = es\<rparr>)"

definition num_entries :: "Log \<Rightarrow> nat" where
  "num_entries l = length (log_entries l)"

subsection \<open>The header\<close>

definition MINUSES_RE :: regex where
  "MINUSES_RE = cat [Bol, Plus (OneOf ''-''), Eol]"

definition GAMELOG_RE :: regex where
  "GAMELOG_RE = Lit ''Gamelog''"

text \<open>The group of \<^verbatim>\<open>Listener: (.*)\<close> has no name; it is group 1.\<close>

definition LISTENER_RE :: regex where
  "LISTENER_RE = cat [Lit ''Listener: '', Group ''1'' (Star AnyChar)]"

definition SESSION_RE :: regex where
  "SESSION_RE = cat [Lit ''Session '', One (OneOf ''Ss''), Lit ''tarted: '', TIMESTAMP_PATTERN]"

definition too_few_lines :: error where
  "too_few_lines = ValueError ''Cannot parse header -- too few lines.''"

text \<open>
  \<^verbatim>\<open>infile.next()\<close>: the next line and the rest of the file; \<^verbatim>\<open>StopIteration\<close> at the
  end of the file is caught by \<^verbatim>\<open>_read_header\<close> and raised again as a \<^verbatim>\<open>ValueError\<close>.
\<close>

definition next_line :: "string list \<Rightarrow> error + (string \<times> string list)" where
  "next_line f = (case f of [] \<Rightarrow> Inl too_few_lines | l # ls \<Rightarrow> Inr (l, ls))"

definition read_header ::
  "string list \<Rightarrow> error + ((string option \<times> datetime) \<times> string list)" where
  "read_header infile =
     bnd (next_line infile) (\<lambda>(l1, f1).
     if re_match MINUSES_RE (rstrip l1) = None
     then Inl (ValueError ''Missing --- line at start of file.'')
     else
     bnd (next_line f1) (\<lambda>(l2, f2).
     if re_search GAMELOG_RE (rstrip l2) = None
     then Inl (ValueError (''Missing '' @ [CHR 0x22] @ ''Gamelog'' @ [CHR 0x22]
                 @ '' line in header.''))
     else
     bnd (next_line f2) (\<lambda>(l3, f3).
     bnd (case re_search LISTENER_RE (rstrip l3) of
            None \<Rightarrow> Inr (None, rstrip l3, f3)
          | Some m \<Rightarrow>
              bnd (match_group m ''1'') (\<lambda>lis.
              bnd (next_line f3) (\<lambda>(l4, f4). Inr (lis, rstrip l4, f4)))) (\<lambda>(lis, session_start_line, f4).
     case re_search SESSION_RE session_start_line of
       None \<Rightarrow> Inl (ValueError (''Missing '' @ [CHR 0x22] @ ''Session started'' @ [CHR 0x22]
                       @ '' line in header.''))
     | Some m \<Rightarrow>
         bnd (timestamp_of m) (\<lambda>ts.
         bnd (next_line f4) (\<lambda>(l5, f5).
         if re_match MINUSES_RE (rstrip l5) = None
         then Inl (ValueError ''Missing --- line to end header.'')
         else Inr ((lis, ts), f5)))))))"

text \<open>
  \<^verbatim>\<open>Log.parse_log\<close> on the lines of the file: the header, then the entries. (The
  \<^verbatim>\<open>finally\<close> clause closes the file on both paths.)
\<close>

definition parse_log :: "string list \<Rightarrow> error + Log" where
  "parse_log infile =
     bnd (read_header infile) (\<lambda>((lis, ts), rest). Log_init lis ts rest)"


section \<open>Notions of the specification\<close>

text \<open>
  The invariant the specification states for a combat entry: a target \<^verbatim>\<open>you\<close> comes
  with an empty weapon and an attacker other than \<^verbatim>\<open>You\<close>, any other target with the
  attacker \<^verbatim>\<open>You\<close>.
\<close>

definition claimed_invariant :: "combat \<Rightarrow> bool" where
  "claimed_invariant c =
     (if target c = Some ''you''
      then weapon c = Some [] \<and> attacker c \<noteq> Some ''You''
      else attacker c = Some ''You'')"

text \<open>
  A text in the form of the first V3 phrase whose preposition is neither \<^verbatim>\<open>to\<close> nor
  \<^verbatim>\<open>from\<close>; the fourth Simplified phrase matches it too.
\<close>

definition assert_text :: string where
  "assert_text =
     ''<color><b>5</b> <color><font>a misses b</font> <b><color>X</b><font><color> - Hits''"

text \<open>A text in the form of the first V3 phrase with the preposition \<open>p\<close>.\<close>

definition prep_text :: "string \<Rightarrow> string" where
  "prep_text p =
     ''<color><b>5</b> <color><font>'' @ p @ ''</font> <b><color>X</b><font><color> - Hits''"

text \<open>
  The parser of a dialect and its phrases; for an unknown dialect, the detection and
  the phrases of all three.
\<close>

fun dialect_parser :: "log_type \<Rightarrow> string \<Rightarrow> error + combat" where
  "dialect_parser V3 d = parse_v3 d"
| "dialect_parser COMPLEX d = parse_complex d"
| "dialect_parser SIMPLIFIED d = parse_simple d"
| "dialect_parser LOG_UNKNOWN d = bnd (parse_data LOG_UNKNOWN d) (\<lambda>(c, lt). Inr c)"

fun dialect_phrases :: "log_type \<Rightarrow> regex list" where
  "dialect_phrases V3 = V3_PHRASE_RES"
| "dialect_phrases COMPLEX = VERB_PHRASE_RES"
| "dialect_phrases SIMPLIFIED = SIMPLIFIED_PHRASE_RES"
| "dialect_phrases LOG_UNKNOWN = V3_PHRASE_RES @ SIMPLIFIED_PHRASE_RES @ VERB_PHRASE_RES"

text \<open>A combat entry whose attributes are what the parser of the dialect gives for its text.\<close>

definition parsed_by :: "log_type \<Rightarrow> LogEntry \<Rightarrow> bool" where
  "parsed_by lt e =
     (case combat e of
        None \<Rightarrow> True
      | Some c \<Rightarrow> (case data e of None \<Rightarrow> False | Some d \<Rightarrow> dialect_parser lt d = Inr c))"

text \<open>A line of the file that, right-trimmed, does not match the pattern of an entry.\<close>

definition continuation_line :: "string \<Rightarrow> bool" where
  "continuation_line l = (re_match LOG_LINE_RE (rstrip l) = None)"

text \<open>\<open>carries msg t\<close>: the text \<open>t\<close> occurs in the message \<open>msg\<close>.\<close>

fun carries :: "string \<Rightarrow> string \<Rightarrow> bool" where
  "carries [] t = (t = [])"
| "carries (c # cs) t = (take (length t) (c # cs) = t \<or> carries cs t)"

text \<open>The table of category tags as the specification gives it.\<close>

definition category_table :: "string \<rightharpoonup> entry_type" where
  "category_table =
     [''combat'' \<mapsto> COMBAT, ''info'' \<mapsto> INFO, ''notify'' \<mapsto> NOTIFY, ''warning'' \<mapsto> WARNING,
      ''question'' \<mapsto> QUESTION, ''hint'' \<mapsto> HINT, ''None'' \<mapsto> NONE]"

text \<open>The messages of the two errors of the parser itself.\<close>

definition unknown_category :: "string \<Rightarrow> error" where
  "unknown_category g = ValueError (''Unknown log entry type '' @ [CHR 0x22] @ g @ [CHR 0x22] @ ''.'')"

definition could_not_parse :: "string \<Rightarrow> string \<Rightarrow> error" where
  "could_not_parse d suffix = ValueError (''Could not parse '' @ quotes3 @ d @ quotes3 @ suffix)"

subsection \<open>Example inputs\<close>

definition line_info :: string where
  "line_info = ''[ 2010.01.31 12:00:59 ] (info) hello there''"

definition line_bogus :: string where
  "line_bogus = ''[ 2010.01.31 12:01:00 ] (bogus) some text''"

definition line_notify :: string where
  "line_notify = ''[ 2010.01.31 12:01:30 ] (notify) bye''"

definition line_month13 :: string where
  "line_month13 = ''[ 2010.13.01 00:00:00 ] (bogus) x''"

definition line_miss :: string where
  "line_miss = ''[ 2010.01.31 12:02:00 ] (combat) Enemy misses you completely''"

definition header_lines :: "string list" where
  "header_lines = [''------------------------------'', ''  Gamelog'', ''  Listener: Some Pilot'',
     ''  Session started: 2010.01.31 11:00:00'', ''------------------------------'']"

definition time_hello :: datetime where
  "time_hello = \<lparr>year = 2010, month = 1, day = 31, hour = 12, minute = 0, second = 59\<rparr>"

definition entry_hello :: LogEntry where
  "entry_hello = \<lparr>timestamp = time_hello, entry_type = INFO, data = Some ''hello there'', combat = None\<rparr>"

definition entry_bye :: LogEntry where
  "entry_bye = \<lparr>timestamp = \<lparr>year = 2010, month = 1, day = 31, hour = 12, minute = 1, second = 30\<rparr>,
     entry_type = NOTIFY, data = Some ''bye'', combat = None\<rparr>"

definition entry_miss :: LogEntry where
  "entry_miss = \<lparr>timestamp = \<lparr>year = 2010, month = 1, day = 31, hour = 12, minute = 2, second = 0\<rparr>,
     entry_type = COMBAT, data = Some ''Enemy misses you completely'',
     combat = Some \<lparr>target = Some ''you'', attacker = Some ''Enemy'', weapon = Some [], damage = PyInt 0\<rparr>\<rparr>"

definition time_start :: datetime where
  "time_start = \<lparr>year = 2010, month = 1, day = 31, hour = 11, minute = 0, second = 0\<rparr>"

section \<open>Basic facts\<close>

declare parse_data.simps [simp del]

declare bit_length.simps [simp del]

lemma bnd_simps [simp]: "bnd (Inl e) f = Inl e" "bnd (Inr v) f = f v"
  by (simp_all add: bnd_def)

lemma bnd_eq_Inr: "bnd x f = Inr y \<longleftrightarrow> (\<exists>v. x = Inr v \<and> f v = Inr y)"
  by (cases x) simp_all

lemma bnd_eq_Inl: "bnd x f = Inl e \<longleftrightarrow> x = Inl e \<or> (\<exists>v. x = Inr v \<and> f v = Inl e)"
  by (cases x) simp_all

lemma re_match_names: "re_match r s = Some m \<Longrightarrow> names m = group_names r"
  by (auto simp: re_match_def)

lemma match_group_Inr: "match_group m n = Inr x \<longleftrightarrow> x = captured m n \<and> n \<in> set (names m)"
  by (auto simp: match_group_def)

lemma getitem_Inr: "getitem m n = Inr x \<longleftrightarrow> x = captured m n \<and> n \<in> set (names m)"
  by (auto simp: getitem_def)

lemma py_int_Inr: "py_int x = Inr n \<Longrightarrow> \<exists>s. x = Some s \<and> is_digits s \<and> n = int (dec_val s)"
  by (auto simp: py_int_def split: option.splits if_splits)

lemma py_float_Inr:
  assumes "py_float s = Inr f"
  shows "\<exists>ip fp. s = ip @ ''.'' @ fp \<and> is_digits ip \<and> is_digits fp
           \<and> f = binary64 (int (dec_val (ip @ fp))) (10 ^ length fp)"
proof -
  define ip where "ip = takeWhile (\<lambda>c. c \<noteq> CHR ''.'') s"
  define fp where "fp = drop (Suc (length ip)) s"
  define rest where "rest = dropWhile (\<lambda>c. c \<noteq> CHR ''.'') s"
  from assms have d: "is_digits ip" "is_digits fp" "length ip < length s"
    and f: "f = binary64 (int (dec_val (ip @ fp))) (10 ^ length fp)"
    by (simp_all add: py_float_def Let_def ip_def fp_def split: if_splits)
  have s: "s = ip @ rest"
    by (simp add: ip_def rest_def)
  with d(3) have ne: "rest \<noteq> []"
    by auto
  have "hd rest = CHR ''.''"
    using ne hd_dropWhile[of "\<lambda>c. c \<noteq> CHR ''.''" s] by (simp add: rest_def)
  with ne obtain t where t: "rest = CHR ''.'' # t"
    by (cases rest) auto
  have "fp = t"
    by (simp add: fp_def s t)
  with s t have "s = ip @ ''.'' @ fp" by simp
  with d f show ?thesis by blast
qed

lemma parse_simple_Inr:
  assumes "parse_simple d = Inr c"
  shows "\<exists>m. first_match SIMPLIFIED_PHRASE_RES d = Some m
      \<and> target c = captured m ''target''
      \<and> (if target c = Some ''you'' then weapon c = Some []
         else attacker c = Some ''You'')
      \<and> (\<exists>n. (if truthy (captured m ''damage'') then py_int (captured m ''damage'') else Inr 0) = Inr n
             \<and> damage c = PyInt n)"
proof (cases "first_match SIMPLIFIED_PHRASE_RES d")
  case None
  with assms show ?thesis by (simp add: parse_simple_def)
next
  case (Some m)
  with assms show ?thesis
    apply (simp add: parse_simple_def bnd_eq_Inr match_group_Inr split: if_splits)
    apply (elim exE conjE)
     apply (auto split: if_splits)
    done
qed


lemma parse_v3_Inr:
  assumes "parse_v3 d = Inr c"
  shows "\<exists>m. first_match V3_PHRASE_RES d = Some m
      \<and> (if target c = Some ''you'' then weapon c = Some []
         else attacker c = Some ''You'' \<and> weapon c = captured m ''weapon'')
      \<and> (\<exists>n. (if ''damage'' \<in> set (names m) then py_int (captured m ''damage'') else Inr 0) = Inr n
             \<and> damage c = PyInt n)"
proof (cases "first_match V3_PHRASE_RES d")
  case None
  with assms show ?thesis by (simp add: parse_v3_def)
next
  case (Some m)
  with assms show ?thesis
    apply (simp add: parse_v3_def bnd_eq_Inr getitem_Inr in_groupdict_def split: if_splits)
    apply (elim exE conjE)
     apply (auto split: if_splits)
    done
qed

lemma parse_complex_Inr:
  assumes "parse_complex d = Inr c"
  shows "\<exists>m. first_match VERB_PHRASE_RES d = Some m
      \<and> target c = captured m ''target'' \<and> attacker c = captured m ''attacker''
      \<and> weapon c = captured m ''weapon''
      \<and> (case captured m ''damage'' of
            None \<Rightarrow> damage c = PyInt 0
          | Some s \<Rightarrow> py_float s = Inr (damage c))"
proof (cases "first_match VERB_PHRASE_RES d")
  case None
  with assms show ?thesis by (simp add: parse_complex_def)
next
  case (Some m)
  with assms show ?thesis
    apply (simp add: parse_complex_def bnd_eq_Inr match_group_Inr)
    apply (elim exE conjE)
    apply (auto simp: bnd_eq_Inr split: option.splits)
    done
qed

section \<open>Scenarios\<close>

lemma eval_complex_hit:
  "parse_data LOG_UNKNOWN ''You hits Target Rat, doing 12.5 damage.'' =
     Inr (\<lparr>target = Some ''Target Rat'', attacker = Some ''You'', weapon = Some [],
           damage = PyFloat (25 / 2)\<rparr>, COMPLEX)"
  by code_simp

text \<open>
  Claim C6. Constructing the combat entry of the text
  \<^verbatim>\<open>You hits Target Rat, doing 12.5 damage.\<close> on a log whose dialect is unknown gives
  the attacker \<^verbatim>\<open>You\<close>, the target \<^verbatim>\<open>Target Rat\<close>, the empty weapon and the damage
  12.5, and sets the dialect of the log to Complex. (12.5 is a binary64 number, so the
  value of \<^verbatim>\<open>float\<close> is exact here.)
\<close>

theorem scenario_complex_hit:
  "CombatLogEntry ts (Some ''You hits Target Rat, doing 12.5 damage.'') LOG_UNKNOWN =
     Inr (\<lparr>timestamp = ts, entry_type = COMBAT,
            data = Some ''You hits Target Rat, doing 12.5 damage.'',
            combat = Some \<lparr>target = Some ''Target Rat'', attacker = Some ''You'',
                            weapon = Some [], damage = PyFloat (25 / 2)\<rparr>\<rparr>, COMPLEX)"
  by (simp add: CombatLogEntry_def eval_complex_hit)

lemma eval_simple_miss:
  "parse_data LOG_UNKNOWN ''Your Missile misses Enemy Frigate'' =
     Inr (\<lparr>target = Some ''Enemy Frigate'', attacker = Some ''You'',
           weapon = Some ''Your Missile'', damage = PyInt 0\<rparr>, SIMPLIFIED)"
  by code_simp

text \<open>
  The text \<^verbatim>\<open>Your Missile misses Enemy Frigate\<close> on a log whose dialect is unknown:
  the weapon of the entry is not \<^verbatim>\<open>Missile\<close>. The fourth Simplified phrase
  \<^verbatim>\<open>(?P<weapon>.*) misses (?P<target>[^.]*)\<close> captures everything before
  \<^verbatim>\<open> misses \<close> as the weapon.
\<close>

theorem scenario_simplified_miss_counterexample:
  "parse_data LOG_UNKNOWN ''Your Missile misses Enemy Frigate'' =
     Inr (\<lparr>target = Some ''Enemy Frigate'', attacker = Some ''You'',
           weapon = Some ''Your Missile'', damage = PyInt 0\<rparr>, SIMPLIFIED)
   \<and> Some ''Your Missile'' \<noteq> Some ''Missile''"
  by (simp add: eval_simple_miss)

text \<open>
  Claim C4, amended. Constructing the combat entry of the text
  \<^verbatim>\<open>Your Missile misses Enemy Frigate\<close> on a log whose dialect is unknown gives the
  attacker \<^verbatim>\<open>You\<close>, the target \<^verbatim>\<open>Enemy Frigate\<close>, the weapon \<^verbatim>\<open>Your Missile\<close> and
  the damage 0, and sets the dialect of the log to Simplified.
\<close>

theorem scenario_simplified_miss:
  "CombatLogEntry ts (Some ''Your Missile misses Enemy Frigate'') LOG_UNKNOWN =
     Inr (\<lparr>timestamp = ts, entry_type = COMBAT,
            data = Some ''Your Missile misses Enemy Frigate'',
            combat = Some \<lparr>target = Some ''Enemy Frigate'', attacker = Some ''You'',
                            weapon = Some ''Your Missile'', damage = PyInt 0\<rparr>\<rparr>, SIMPLIFIED)"
  by (simp add: CombatLogEntry_def eval_simple_miss)


section \<open>Evaluations on concrete texts\<close>

lemma eval_assert_v3: "parse_v3 assert_text = Inl AssertionError"
  by code_simp

lemma eval_assert_simple: "parse_simple assert_text =
  Inr \<lparr>target = Some ''b</font> <b><color>X</b><font><color> - Hits'', attacker = Some ''You'',
       weapon = Some ''<b>5</b> <color><font>a'', damage = PyInt 0\<rparr>"
  by code_simp

lemma eval_both_v3: "parse_v3 ''Enemy misses you completely'' =
  Inr \<lparr>target = Some ''you'', attacker = Some ''Enemy'', weapon = Some [], damage = PyInt 0\<rparr>"
  by code_simp

lemma eval_both_simple: "parse_simple ''Enemy misses you completely'' =
  Inr \<lparr>target = Some ''you completely'', attacker = Some ''You'', weapon = Some ''Enemy'',
       damage = PyInt 0\<rparr>"
  by code_simp

lemma eval_simple_hit: "parse_simple ''Enemy Drone hits you for <b>57</b> damage'' =
  Inr \<lparr>target = Some ''you'', attacker = Some ''Enemy Drone'', weapon = Some [], damage = PyInt 57\<rparr>"
  by code_simp

lemma eval_v3_to: "parse_v3 ''<color><b>123</b> <color><font>to</font> <b><color>Rat</b><font><color> - Gun - Hits'' =
  Inr \<lparr>target = Some ''Rat'', attacker = Some ''You'', weapon = Some ''Gun'', damage = PyInt 123\<rparr>"
  by code_simp

lemma eval_complex_drone: "parse_complex ''Hammerhead I belonging to Foo hits you, doing 3.0 damage.'' =
  Inr \<lparr>target = Some ''you'', attacker = Some ''Foo'', weapon = Some ''Hammerhead I'', damage = PyFloat 3\<rparr>"
  by code_simp

lemma eval_complex_other: "parse_complex ''Foo hits Bar, doing 3.0 damage.'' =
  Inr \<lparr>target = Some ''Bar'', attacker = Some ''Foo'', weapon = Some [], damage = PyFloat 3\<rparr>"
  by code_simp

lemma eval_simple_self: "parse_simple ''You hits you for <b>5</b> damage'' =
  Inr \<lparr>target = Some ''you'', attacker = Some ''You'', weapon = Some [], damage = PyInt 5\<rparr>"
  by code_simp

lemma eval_complex_parse: "parse_complex ''You hits Target Rat, doing 12.5 damage.'' =
  Inr \<lparr>target = Some ''Target Rat'', attacker = Some ''You'', weapon = Some [], damage = PyFloat (25 / 2)\<rparr>"
  by code_simp


section \<open>The player is one side of every entry\<close>

text \<open>
  The invariant of the specification fails. The Complex parser stores the captured
  groups as they are: a drone line (\<^verbatim>\<open>... belonging to ...\<close>) gives a weapon although
  the target is \<^verbatim>\<open>you\<close>, and a line between two other parties gives neither side as
  the player. The Simplified parser gives the attacker \<^verbatim>\<open>You\<close> with the target
  \<^verbatim>\<open>you\<close> on a line that reads so.
\<close>

theorem player_side_invariant_counterexample:
  "parse_complex ''Hammerhead I belonging to Foo hits you, doing 3.0 damage.'' =
     Inr \<lparr>target = Some ''you'', attacker = Some ''Foo'', weapon = Some ''Hammerhead I'',
          damage = PyFloat 3\<rparr>
   \<and> \<not> claimed_invariant \<lparr>target = Some ''you'', attacker = Some ''Foo'',
          weapon = Some ''Hammerhead I'', damage = PyFloat 3\<rparr>
   \<and> parse_complex ''Foo hits Bar, doing 3.0 damage.'' =
     Inr \<lparr>target = Some ''Bar'', attacker = Some ''Foo'', weapon = Some [],
          damage = PyFloat 3\<rparr>
   \<and> \<not> claimed_invariant \<lparr>target = Some ''Bar'', attacker = Some ''Foo'', weapon = Some [],
          damage = PyFloat 3\<rparr>
   \<and> parse_simple ''You hits you for <b>5</b> damage'' =
     Inr \<lparr>target = Some ''you'', attacker = Some ''You'', weapon = Some [], damage = PyInt 5\<rparr>
   \<and> \<not> claimed_invariant \<lparr>target = Some ''you'', attacker = Some ''You'', weapon = Some [],
          damage = PyInt 5\<rparr>"
  by (simp add: eval_complex_drone eval_complex_other eval_simple_self claimed_invariant_def)

text \<open>
  Claim C1, amended. For every combat entry the Simplified or the V3 parser produces:
  if its target is \<^verbatim>\<open>you\<close> then its weapon is the empty string, and if its target is
  not \<^verbatim>\<open>you\<close> then its attacker is \<^verbatim>\<open>You\<close>; so attacker and target are never both
  non-player.
\<close>

theorem player_side_invariant:
  "parse_simple d = Inr c \<or> parse_v3 d = Inr c \<Longrightarrow>
     (target c = Some ''you'' \<longrightarrow> weapon c = Some [])
     \<and> (target c \<noteq> Some ''you'' \<longrightarrow> attacker c = Some ''You'')"
  using parse_simple_Inr[of d c] parse_v3_Inr[of d c]
  by (auto split: if_splits)

theorem player_side_invariant_witness:
  "parse_simple ''Enemy Drone hits you for <b>57</b> damage'' =
     Inr \<lparr>target = Some ''you'', attacker = Some ''Enemy Drone'', weapon = Some [],
          damage = PyInt 57\<rparr>
   \<and> weapon \<lparr>target = Some ''you'', attacker = Some ''Enemy Drone'', weapon = Some [],
              damage = PyInt 57\<rparr> = Some []
   \<and> parse_v3 ''<color><b>123</b> <color><font>to</font> <b><color>Rat</b><font><color> - Gun - Hits'' =
     Inr \<lparr>target = Some ''Rat'', attacker = Some ''You'', weapon = Some ''Gun'',
          damage = PyInt 123\<rparr>
   \<and> attacker \<lparr>target = Some ''Rat'', attacker = Some ''You'', weapon = Some ''Gun'',
              damage = PyInt 123\<rparr> = Some ''You''"
  using player_side_invariant[of "''Enemy Drone hits you for <b>57</b> damage''"
      "\<lparr>target = Some ''you'', attacker = Some ''Enemy Drone'', weapon = Some [],
          damage = PyInt 57\<rparr>"]
    player_side_invariant[of "''<color><b>123</b> <color><font>to</font> <b><color>Rat</b><font><color> - Gun - Hits''"
      "\<lparr>target = Some ''Rat'', attacker = Some ''You'', weapon = Some ''Gun'',
          damage = PyInt 123\<rparr>"]
    eval_simple_hit eval_v3_to
  by simp


section \<open>Detection of the dialect\<close>

text \<open>
  With an unknown dialect the parsers are tried in the order V3, Simplified, Complex,
  the next one when the one before raised \<^verbatim>\<open>ValueError\<close>, its parse error. On these
  paths the first parser that returns supplies the entry and becomes the dialect of the
  log, and the error of the Complex parser is the error of the parse.
\<close>

lemma parse_data_unknown_fallback:
  "(parse_v3 d = Inr c \<longrightarrow> parse_data LOG_UNKNOWN d = Inr (c, V3))
   \<and> (parse_v3 d = Inl (ValueError m1) \<and> parse_simple d = Inr c \<longrightarrow>
        parse_data LOG_UNKNOWN d = Inr (c, SIMPLIFIED))
   \<and> (parse_v3 d = Inl (ValueError m1) \<and> parse_simple d = Inl (ValueError m2)
        \<and> parse_complex d = Inr c \<longrightarrow>
        parse_data LOG_UNKNOWN d = Inr (c, COMPLEX))
   \<and> (parse_v3 d = Inl (ValueError m1) \<and> parse_simple d = Inl (ValueError m2)
        \<and> parse_complex d = Inl e \<longrightarrow>
        parse_data LOG_UNKNOWN d = Inl e)"
  by (auto simp: parse_data.simps)

text \<open>A text both the V3 and the Simplified parser accept gives the V3 entry and locks V3.\<close>

lemma parse_data_unknown_both:
  "parse_v3 ''Enemy misses you completely'' =
     Inr \<lparr>target = Some ''you'', attacker = Some ''Enemy'', weapon = Some [], damage = PyInt 0\<rparr>
   \<and> parse_simple ''Enemy misses you completely'' =
     Inr \<lparr>target = Some ''you completely'', attacker = Some ''You'', weapon = Some ''Enemy'',
          damage = PyInt 0\<rparr>
   \<and> parse_data LOG_UNKNOWN ''Enemy misses you completely'' =
     Inr (\<lparr>target = Some ''you'', attacker = Some ''Enemy'', weapon = Some [],
           damage = PyInt 0\<rparr>, V3)"
  by (simp add: eval_both_v3 eval_both_simple parse_data.simps)

text \<open>
  Claim C2 fails on the text \<open>assert_text\<close>. The first V3 phrase matches it with the
  preposition \<^verbatim>\<open>a misses b\<close>, and \<^verbatim>\<open>_parse_v3\<close> fails its own assertion
  \<^verbatim>\<open>assert p == 'to' or p == 'from'\<close>. The handler \<^verbatim>\<open>except ValueError\<close> of
  \<^verbatim>\<open>_parse_data\<close> does not catch the failure: the Simplified parser, next in the order,
  accepts the text, yet the parse ends with \<^verbatim>\<open>AssertionError\<close>, so the first parser that
  succeeds neither supplies the entry nor becomes the dialect of the log.
\<close>

theorem unknown_dialect_order_failing_input:
  "parse_v3 assert_text = Inl AssertionError
   \<and> parse_simple assert_text =
       Inr \<lparr>target = Some ''b</font> <b><color>X</b><font><color> - Hits'',
            attacker = Some ''You'', weapon = Some ''<b>5</b> <color><font>a'',
            damage = PyInt 0\<rparr>
   \<and> parse_data LOG_UNKNOWN assert_text = Inl AssertionError"
  by (simp add: eval_assert_v3 eval_assert_simple parse_data.simps)


section \<open>Damage\<close>

subsection \<open>The rounding of \<^verbatim>\<open>float\<close>\<close>

text \<open>
  The float of a fraction is within half a unit in the last place of the fraction: it
  is a nearest binary64 number.
\<close>

lemma round_half_even_bounds:
  assumes "0 < den" and "0 \<le> num"
  shows "2 * num \<le> (2 * round_half_even num den + 1) * den"
    and "(2 * round_half_even num den - 1) * den \<le> 2 * num"
proof -
  define q where "q = num div den"
  define r where "r = num mod den"
  have n: "num = q * den + r" and r: "0 \<le> r" "r < den"
    using assms by (simp_all add: q_def r_def)
  show "2 * num \<le> (2 * round_half_even num den + 1) * den"
    unfolding round_half_even_def Let_def q_def[symmetric] r_def[symmetric]
    using n r by (auto simp: algebra_simps)
  show "(2 * round_half_even num den - 1) * den \<le> 2 * num"
    unfolding round_half_even_def Let_def q_def[symmetric] r_def[symmetric]
    using n r by (auto simp: algebra_simps)
qed

lemma half_step:
  fixes v x h :: rat
  shows "2 * v \<le> 2 * x + h \<Longrightarrow> 2 * x - h \<le> 2 * v \<Longrightarrow> 2 * \<bar>v - x\<bar> \<le> h"
  unfolding abs_if by (auto simp: algebra_simps)

lemma binary64_nearest:
  assumes N: "0 < N" and D: "0 < D" and x: "binary64 N D = PyFloat x"
  shows "2 * \<bar>of_int N / of_int D - x\<bar> \<le> ulp (binary64_exponent N D)"
proof -
  define p where "p = binary64_exponent N D"
  show ?thesis
  proof (cases "0 \<le> p")
    case True
    define m where "m = round_half_even N (D * 2 ^ nat p)"
    have den: "0 < D * 2 ^ nat p" using D by simp
    from x N True have xm: "x = of_int (m * 2 ^ nat p)"
      by (auto simp: binary64_def Let_def p_def[symmetric] m_def[symmetric] split: if_splits)
    from round_half_even_bounds[OF den, of N] N
    have b: "2 * N \<le> (2 * m + 1) * (D * 2 ^ nat p)" "(2 * m - 1) * (D * 2 ^ nat p) \<le> 2 * N"
      by (simp_all add: m_def)
    have Dr: "(0::rat) < of_int D" using D by simp
    from b(1) have "(of_int (2 * N) :: rat) \<le> of_int ((2 * m + 1) * (D * 2 ^ nat p))"
      by (simp only: of_int_le_iff)
    then have u: "2 * (of_int N / of_int D :: rat) \<le> (2 * of_int m + 1) * 2 ^ nat p"
      using Dr by (simp add: field_simps)
    from b(2) have "(of_int ((2 * m - 1) * (D * 2 ^ nat p)) :: rat) \<le> of_int (2 * N)"
      by (simp only: of_int_le_iff)
    then have l: "(2 * of_int m - 1) * 2 ^ nat p \<le> 2 * (of_int N / of_int D :: rat)"
      using Dr by (simp add: field_simps)
    from u have u': "2 * (of_int N / of_int D :: rat) \<le> 2 * x + 2 ^ nat p"
      by (simp add: xm algebra_simps)
    from l have l': "2 * x - 2 ^ nat p \<le> 2 * (of_int N / of_int D :: rat)"
      by (simp add: xm algebra_simps)
    from u' l' have "2 * \<bar>of_int N / of_int D - x\<bar> \<le> 2 ^ nat p"
      by (rule half_step)
    with True show ?thesis by (simp add: ulp_def p_def)
  next
    case False
    define k where "k = nat (- p)"
    define m where "m = round_half_even (N * 2 ^ k) D"
    from x N False have xm: "x = of_int m / of_int (2 ^ k)"
      by (auto simp: binary64_def Let_def p_def[symmetric] m_def[symmetric] k_def[symmetric]
          split: if_splits)
    have num: "0 \<le> N * 2 ^ k" using N by simp
    from round_half_even_bounds[OF D num]
    have b: "2 * (N * 2 ^ k) \<le> (2 * m + 1) * D" "(2 * m - 1) * D \<le> 2 * (N * 2 ^ k)"
      by (simp_all add: m_def)
    have Dr: "(0::rat) < of_int D" using D by simp
    have kr: "(0::rat) < 2 ^ k" by simp
    from b(1) have "(of_int (2 * (N * 2 ^ k)) :: rat) \<le> of_int ((2 * m + 1) * D)"
      by (simp only: of_int_le_iff)
    then have u: "2 * (of_int N / of_int D :: rat) \<le> (2 * of_int m + 1) / 2 ^ k"
      using Dr kr by (simp add: field_simps)
    from b(2) have "(of_int ((2 * m - 1) * D) :: rat) \<le> of_int (2 * (N * 2 ^ k))"
      by (simp only: of_int_le_iff)
    then have l: "(2 * of_int m - 1) / 2 ^ k \<le> 2 * (of_int N / of_int D :: rat)"
      using Dr kr by (simp add: field_simps)
    from u have u': "2 * (of_int N / of_int D :: rat) \<le> 2 * x + 1 / 2 ^ k"
      by (simp add: xm add_divide_distrib)
    from l have l': "2 * x - 1 / 2 ^ k \<le> 2 * (of_int N / of_int D :: rat)"
      by (simp add: xm diff_divide_distrib)
    from u' l' have "2 * \<bar>of_int N / of_int D - x\<bar> \<le> 1 / 2 ^ k"
      by (rule half_step)
    with False show ?thesis by (simp add: ulp_def p_def k_def)
  qed
qed

lemma eval_binary64:
  "binary64 125 10 = PyFloat (25 / 2)"
  "binary64 30 10 = PyFloat 3"
  "binary64 1 10 = PyFloat (3602879701896397 / 36028797018963968)"
  by code_simp+

subsection \<open>The damage of an entry\<close>

text \<open>
  On \<^verbatim>\<open>You hits Target Rat, doing 0.1 damage.\<close> the \<^verbatim>\<open>damage\<close> group of the Complex
  phrase captures \<^verbatim>\<open>0.1\<close>, and the damage of the entry is \<^verbatim>\<open>float('0.1')\<close>, the binary64
  number \<open>3602879701896397 / 2 ^ 55\<close>: it is not the captured number, one tenth.
\<close>

theorem damage_of_match_counterexample:
  "map_option (\<lambda>m. captured m ''damage'')
       (first_match VERB_PHRASE_RES ''You hits Target Rat, doing 0.1 damage.'') =
     Some (Some ''0.1'')
   \<and> parse_complex ''You hits Target Rat, doing 0.1 damage.'' =
     Inr \<lparr>target = Some ''Target Rat'', attacker = Some ''You'', weapon = Some [],
          damage = PyFloat (3602879701896397 / 36028797018963968)\<rparr>
   \<and> (3602879701896397 / 36028797018963968 :: rat) \<noteq> 1 / 10"
proof -
  have a: "map_option (\<lambda>m. captured m ''damage'')
       (first_match VERB_PHRASE_RES ''You hits Target Rat, doing 0.1 damage.'') =
     Some (Some ''0.1'')"
    by code_simp
  have b: "parse_complex ''You hits Target Rat, doing 0.1 damage.'' =
     Inr \<lparr>target = Some ''Target Rat'', attacker = Some ''You'', weapon = Some [],
          damage = PyFloat (3602879701896397 / 36028797018963968)\<rparr>"
    by code_simp
  have c: "(3602879701896397 / 36028797018963968 :: rat) \<noteq> 1 / 10"
    by simp
  from a b c show ?thesis by (intro conjI)
qed

text \<open>
  Claim C5, amended. For every entry a parser produces from its first matching phrase:
  when the phrase has no \<^verbatim>\<open>damage\<close> group (V3), or the group took no part in the match
  or captured the empty string, the damage is 0; otherwise, for Simplified and V3, the
  group captured a string of digits and the damage is exactly that decimal integer; for
  Complex the group captured digits, a point and digits, and the damage is the \<^verbatim>\<open>float\<close>
  of that decimal fraction: the binary64 number nearest to it (\<open>binary64_nearest\<close>), or
  \<^verbatim>\<open>inf\<close> beyond the range. It equals the captured number only when that is a binary64
  number, as 12.5 is and 0.1 is not.
\<close>

theorem damage_of_match:
  "(parse_simple d = Inr c \<longrightarrow>
      (\<exists>m. first_match SIMPLIFIED_PHRASE_RES d = Some m \<and>
        (case captured m ''damage'' of
           None \<Rightarrow> damage c = PyInt 0
         | Some s \<Rightarrow> if s = [] then damage c = PyInt 0
                     else is_digits s \<and> damage c = PyInt (int (dec_val s)))))
   \<and> (parse_v3 d = Inr c \<longrightarrow>
      (\<exists>m. first_match V3_PHRASE_RES d = Some m \<and>
        (if ''damage'' \<in> set (names m)
         then \<exists>s. captured m ''damage'' = Some s \<and> is_digits s
                \<and> damage c = PyInt (int (dec_val s))
         else damage c = PyInt 0)))
   \<and> (parse_complex d = Inr c \<longrightarrow>
      (\<exists>m. first_match VERB_PHRASE_RES d = Some m \<and>
        (case captured m ''damage'' of
           None \<Rightarrow> damage c = PyInt 0
         | Some s \<Rightarrow> \<exists>ip fp. s = ip @ ''.'' @ fp \<and> is_digits ip \<and> is_digits fp
                     \<and> damage c = binary64 (int (dec_val (ip @ fp))) (10 ^ length fp))))"
proof (intro conjI impI)
  assume "parse_simple d = Inr c"
  from parse_simple_Inr[OF this] obtain m n where
    m: "first_match SIMPLIFIED_PHRASE_RES d = Some m"
    and n: "(if truthy (captured m ''damage'') then py_int (captured m ''damage'') else Inr 0) = Inr n"
    and c: "damage c = PyInt n"
    by blast
  have "case captured m ''damage'' of
           None \<Rightarrow> damage c = PyInt 0
         | Some s \<Rightarrow> if s = [] then damage c = PyInt 0
                     else is_digits s \<and> damage c = PyInt (int (dec_val s))"
  proof (cases "captured m ''damage''")
    case None
    with n c show ?thesis by (simp add: truthy_def)
  next
    case (Some s)
    show ?thesis
    proof (cases "s = []")
      case True
      with Some n c show ?thesis by (simp add: truthy_def)
    next
      case False
      with Some n have "py_int (Some s) = Inr n" by (simp add: truthy_def)
      from py_int_Inr[OF this] False Some c show ?thesis by simp
    qed
  qed
  with m show "\<exists>m. first_match SIMPLIFIED_PHRASE_RES d = Some m \<and>
        (case captured m ''damage'' of
           None \<Rightarrow> damage c = PyInt 0
         | Some s \<Rightarrow> if s = [] then damage c = PyInt 0
                     else is_digits s \<and> damage c = PyInt (int (dec_val s)))" by blast
next
  assume "parse_v3 d = Inr c"
  from parse_v3_Inr[OF this] obtain m n where
    m: "first_match V3_PHRASE_RES d = Some m"
    and n: "(if ''damage'' \<in> set (names m) then py_int (captured m ''damage'') else Inr 0) = Inr n"
    and c: "damage c = PyInt n"
    by blast
  have "if ''damage'' \<in> set (names m)
         then \<exists>s. captured m ''damage'' = Some s \<and> is_digits s
                \<and> damage c = PyInt (int (dec_val s))
         else damage c = PyInt 0"
  proof (cases "''damage'' \<in> set (names m)")
    case True
    with n have "py_int (captured m ''damage'') = Inr n" by simp
    from py_int_Inr[OF this] True c show ?thesis by auto
  next
    case False
    with n c show ?thesis by simp
  qed
  with m show "\<exists>m. first_match V3_PHRASE_RES d = Some m \<and>
        (if ''damage'' \<in> set (names m)
         then \<exists>s. captured m ''damage'' = Some s \<and> is_digits s
                \<and> damage c = PyInt (int (dec_val s))
         else damage c = PyInt 0)" by blast
next
  assume "parse_complex d = Inr c"
  from parse_complex_Inr[OF this] obtain m where
    m: "first_match VERB_PHRASE_RES d = Some m"
    and x: "case captured m ''damage'' of
            None \<Rightarrow> damage c = PyInt 0
          | Some s \<Rightarrow> py_float s = Inr (damage c)"
    by blast
  have "case captured m ''damage'' of
           None \<Rightarrow> damage c = PyInt 0
         | Some s \<Rightarrow> \<exists>ip fp. s = ip @ ''.'' @ fp \<and> is_digits ip \<and> is_digits fp
                     \<and> damage c = binary64 (int (dec_val (ip @ fp))) (10 ^ length fp)"
  proof (cases "captured m ''damage''")
    case None
    with x show ?thesis by simp
  next
    case (Some s)
    with x have f: "py_float s = Inr (damage c)"
      by simp
    from py_float_Inr[OF f] Some show ?thesis by simp
  qed
  with m show "\<exists>m. first_match VERB_PHRASE_RES d = Some m \<and>
        (case captured m ''damage'' of
           None \<Rightarrow> damage c = PyInt 0
         | Some s \<Rightarrow> \<exists>ip fp. s = ip @ ''.'' @ fp \<and> is_digits ip \<and> is_digits fp
                     \<and> damage c = binary64 (int (dec_val (ip @ fp))) (10 ^ length fp))" by blast
qed

theorem damage_of_match_witness:
  "parse_simple ''Enemy Drone hits you for <b>57</b> damage'' =
     Inr \<lparr>target = Some ''you'', attacker = Some ''Enemy Drone'', weapon = Some [],
          damage = PyInt 57\<rparr>
   \<and> (\<exists>m. first_match SIMPLIFIED_PHRASE_RES ''Enemy Drone hits you for <b>57</b> damage'' = Some m
        \<and> (case captured m ''damage'' of
              None \<Rightarrow> False
            | Some s \<Rightarrow> s \<noteq> [] \<and> is_digits s \<and> int (dec_val s) = 57))
   \<and> parse_v3 ''Enemy misses you completely'' =
     Inr \<lparr>target = Some ''you'', attacker = Some ''Enemy'', weapon = Some [], damage = PyInt 0\<rparr>
   \<and> (\<exists>m. first_match V3_PHRASE_RES ''Enemy misses you completely'' = Some m)
   \<and> parse_complex ''You hits Target Rat, doing 12.5 damage.'' =
     Inr \<lparr>target = Some ''Target Rat'', attacker = Some ''You'', weapon = Some [],
          damage = PyFloat (25 / 2)\<rparr>
   \<and> (\<exists>m. first_match VERB_PHRASE_RES ''You hits Target Rat, doing 12.5 damage.'' = Some m
        \<and> (case captured m ''damage'' of
              None \<Rightarrow> False
            | Some s \<Rightarrow> \<exists>ip fp. s = ip @ ''.'' @ fp \<and> is_digits ip \<and> is_digits fp
                \<and> binary64 (int (dec_val (ip @ fp))) (10 ^ length fp) = PyFloat (25 / 2)))"
proof -
  let ?c1 = "\<lparr>target = Some ''you'', attacker = Some ''Enemy Drone'', weapon = Some [],
          damage = PyInt 57\<rparr>"
  let ?c2 = "\<lparr>target = Some ''you'', attacker = Some ''Enemy'', weapon = Some [], damage = PyInt 0\<rparr>"
  let ?c3 = "\<lparr>target = Some ''Target Rat'', attacker = Some ''You'', weapon = Some [],
          damage = PyFloat (25 / 2)\<rparr>"
  from damage_of_match[of "''Enemy Drone hits you for <b>57</b> damage''" ?c1] eval_simple_hit
  obtain m1 where m1: "first_match SIMPLIFIED_PHRASE_RES ''Enemy Drone hits you for <b>57</b> damage'' = Some m1"
    and d1: "case captured m1 ''damage'' of
           None \<Rightarrow> damage ?c1 = PyInt 0
         | Some s \<Rightarrow> if s = [] then damage ?c1 = PyInt 0
                     else is_digits s \<and> damage ?c1 = PyInt (int (dec_val s))"
    by blast
  from d1 have e1: "case captured m1 ''damage'' of
              None \<Rightarrow> False
            | Some s \<Rightarrow> s \<noteq> [] \<and> is_digits s \<and> int (dec_val s) = 57"
    by (cases "captured m1 ''damage''") (simp_all split: if_splits)
  from damage_of_match[of "''Enemy misses you completely''" ?c2] eval_both_v3
  obtain m2 where m2: "first_match V3_PHRASE_RES ''Enemy misses you completely'' = Some m2"
    by blast
  from damage_of_match[of "''You hits Target Rat, doing 12.5 damage.''" ?c3] eval_complex_parse
  obtain m3 where m3: "first_match VERB_PHRASE_RES ''You hits Target Rat, doing 12.5 damage.'' = Some m3"
    and d3: "case captured m3 ''damage'' of
           None \<Rightarrow> damage ?c3 = PyInt 0
         | Some s \<Rightarrow> \<exists>ip fp. s = ip @ ''.'' @ fp \<and> is_digits ip \<and> is_digits fp
                     \<and> damage ?c3 = binary64 (int (dec_val (ip @ fp))) (10 ^ length fp)"
    by blast
  from d3 have e3: "case captured m3 ''damage'' of
              None \<Rightarrow> False
            | Some s \<Rightarrow> \<exists>ip fp. s = ip @ ''.'' @ fp \<and> is_digits ip \<and> is_digits fp
                \<and> binary64 (int (dec_val (ip @ fp))) (10 ^ length fp) = PyFloat (25 / 2)"
  proof (cases "captured m3 ''damage''")
    case None
    with d3 show ?thesis by simp
  next
    case (Some s)
    with d3 obtain ip fp where "s = ip @ ''.'' @ fp" "is_digits ip" "is_digits fp"
      "PyFloat (25 / 2) = binary64 (int (dec_val (ip @ fp))) (10 ^ length fp)"
      by auto
    then have "s = ip @ ''.'' @ fp \<and> is_digits ip \<and> is_digits fp
       \<and> binary64 (int (dec_val (ip @ fp))) (10 ^ length fp) = PyFloat (25 / 2)"
      by simp
    with Some show ?thesis by (simp only: option.case) blast
  qed
  from m1 e1 m2 m3 e3 eval_simple_hit eval_both_v3 eval_complex_parse show ?thesis
    by blast
qed

section \<open>Lines, entries and logs: lemmas\<close>

lemma parse_data_locked:
  "lt \<noteq> LOG_UNKNOWN \<Longrightarrow> parse_data lt d = bnd (dialect_parser lt d) (\<lambda>c. Inr (c, lt))"
  by (cases lt) (simp_all add: parse_data.simps)

lemma no_phrase_error:
  "lt \<noteq> LOG_UNKNOWN \<Longrightarrow> first_match (dialect_phrases lt) d = None \<Longrightarrow>
     \<exists>msg. dialect_parser lt d = Inl (ValueError msg)"
  by (cases lt) (simp_all add: parse_v3_def parse_simple_def parse_complex_def)

lemma parse_line_None: "re_match LOG_LINE_RE line = None \<Longrightarrow> parse_line line lt = Inr (None, lt)"
  by (simp add: parse_line_def)

lemma parse_line_locked:
  assumes "lt \<noteq> LOG_UNKNOWN" and "parse_line line lt = Inr (r, lt')"
  shows "lt' = lt \<and> (case r of None \<Rightarrow> True | Some e \<Rightarrow> parsed_by lt e)"
proof (cases "re_match LOG_LINE_RE line")
  case None
  with assms show ?thesis by (simp add: parse_line_def)
next
  case (Some m)
  with assms show ?thesis
    apply (simp add: parse_line_def bnd_eq_Inr CombatLogEntry_def parse_data_locked
        split: if_splits option.splits)
      apply (auto simp: parsed_by_def bnd_eq_Inr split: if_splits)
    done
qed

lemma read_entries_locked:
  "lt \<noteq> LOG_UNKNOWN \<Longrightarrow> read_entries lt ls = Inr (lt', es) \<Longrightarrow>
     lt' = lt \<and> list_all (parsed_by lt) es"
proof (induction ls arbitrary: es lt')
  case Nil
  then show ?case by simp
next
  case (Cons l ls)
  from Cons.prems(2) obtain r lt1 lt2 es1 where
    p: "parse_line (rstrip l) lt = Inr (r, lt1)" and
    q: "read_entries lt1 ls = Inr (lt2, es1)" and
    e: "lt' = lt2" "es = (case r of None \<Rightarrow> es1 | Some e \<Rightarrow> e # es1)"
    by (auto simp: bnd_eq_Inr)
  from parse_line_locked[OF Cons.prems(1) p] have l1: "lt1 = lt"
    and pr: "case r of None \<Rightarrow> True | Some e \<Rightarrow> parsed_by lt e" by simp_all
  from Cons.IH[OF Cons.prems(1), of lt2 es1] q l1 have "lt2 = lt" "list_all (parsed_by lt) es1"
    by simp_all
  with e pr show ?case by (cases r) simp_all
qed

lemma read_entries_Cons_continuation:
  "continuation_line l \<Longrightarrow> read_entries lt (l # ls) = read_entries lt ls"
  by (cases "read_entries lt ls") (auto simp: continuation_line_def parse_line_None)

lemma read_entries_append:
  "read_entries lt (xs @ ys) =
     bnd (read_entries lt xs) (\<lambda>(lt', es).
     bnd (read_entries lt' ys) (\<lambda>(lt'', es'). Inr (lt'', es @ es')))"
proof (induction xs arbitrary: lt)
  case Nil
  show ?case by (cases "read_entries lt ys") auto
next
  case (Cons x xs)
  show ?case
  proof (cases "parse_line (rstrip x) lt")
    case (Inl e)
    then show ?thesis by simp
  next
    case (Inr p)
    obtain r lt1 where p: "p = (r, lt1)" by (cases p)
    show ?thesis
    proof (cases "read_entries lt1 xs")
      case (Inl e)
      with Inr p Cons.IH[of lt1] show ?thesis by simp
    next
      case xsr: (Inr q)
      obtain lt2 es where q: "q = (lt2, es)" by (cases q)
      show ?thesis
        using Inr p xsr q Cons.IH[of lt1]
        by (cases "read_entries lt2 ys") (auto split: option.splits)
    qed
  qed
qed

lemma read_entries_filter:
  "read_entries lt (filter (\<lambda>l. \<not> continuation_line l) ls) = read_entries lt ls"
proof (induction ls arbitrary: lt)
  case Nil
  show ?case by simp
next
  case (Cons l ls)
  show ?case
  proof (cases "continuation_line l")
    case True
    with Cons.IH show ?thesis
      by (simp add: read_entries_Cons_continuation del: read_entries.simps(2))
  next
    case False
    with Cons.IH show ?thesis by simp
  qed
qed

lemma read_entries_continuations:
  "list_all continuation_line cs \<Longrightarrow> read_entries lt (cs @ ys) = read_entries lt ys"
  by (induction cs) (simp_all add: read_entries_Cons_continuation del: read_entries.simps(2))

lemma carries_prefix: "carries (t @ b) t"
proof (cases "t @ b")
  case Nil
  then show ?thesis by simp
next
  case (Cons c cs)
  have "take (length t) (t @ b) = t" by simp
  then have "take (length t) (c # cs) = t" by (simp only: Cons)
  then show ?thesis by (simp only: Cons carries.simps) simp
qed

lemma carries_append: "carries (a @ t @ b) t"
proof (induction a)
  case Nil
  show ?case using carries_prefix by simp
next
  case (Cons x a)
  then show ?case by simp
qed

lemma LOG_LINE_names:
  "group_names LOG_LINE_RE =
     [''year'', ''month'', ''day'', ''hour'', ''min'', ''sec'', ''type'', ''data'']"
  by (simp add: LOG_LINE_RE_def TIMESTAMP_PATTERN_def)

lemma parse_line_header:
  assumes "re_match LOG_LINE_RE line = Some m" and "timestamp_of m = Inr ts"
    and "captured m ''type'' = Some g"
  shows "parse_line line lt =
     (if g = ''combat''
      then bnd (CombatLogEntry ts (captured m ''data'') lt) (\<lambda>(e, lt'). Inr (Some e, lt'))
      else case category_table g of
             None \<Rightarrow> Inl (unknown_category g)
           | Some t \<Rightarrow> Inr (Some \<lparr>timestamp = ts, entry_type = t, data = captured m ''data'',
                                  combat = None\<rparr>, lt))"
  using assms re_match_names[OF assms(1)]
  by (simp add: parse_line_def match_group_def LOG_LINE_names category_table_def
      unknown_category_def py_str_def)

lemma CombatLogEntry_type:
  "CombatLogEntry ts dat lt = Inr (e, lt') \<Longrightarrow> entry_type e = COMBAT"
  by (auto simp: CombatLogEntry_def bnd_eq_Inr split: option.splits)

lemma read_entries_fail:
  assumes "read_entries lt0 xs = Inr (lt, es)" and "parse_line (rstrip l) lt = Inl e"
  shows "read_entries lt0 (xs @ l # ys) = Inl e"
  using assms by (simp add: read_entries_append)

lemma read_entries_ok:
  assumes "read_entries lt0 (xs @ l # ys) = Inr res"
  shows "\<exists>lt es r. read_entries lt0 xs = Inr (lt, es) \<and> parse_line (rstrip l) lt = Inr r"
  using assms by (auto simp: read_entries_append bnd_eq_Inr)

lemma undetected_error:
  assumes "first_match V3_PHRASE_RES d = None" and "first_match SIMPLIFIED_PHRASE_RES d = None"
    and "first_match VERB_PHRASE_RES d = None"
  shows "parse_data LOG_UNKNOWN d = Inl (could_not_parse d '' as complex.'')"
  using assms
  by (simp add: parse_data.simps parse_v3_def parse_simple_def parse_complex_def
      could_not_parse_def)

lemma V3_split: "V3_PHRASE_RES = hd V3_PHRASE_RES # tl V3_PHRASE_RES"
  by (simp add: V3_PHRASE_RES_def V3_PHRASES_def)

lemma hd_V3: "first_match V3_PHRASE_RES d =
   (case re_match (hd V3_PHRASE_RES) d of Some m \<Rightarrow> Some m
    | None \<Rightarrow> first_match (tl V3_PHRASE_RES) d)"
  by (subst V3_split) (simp only: first_match.simps)

lemma hd_V3_names: "''preposition'' \<in> set (group_names (hd V3_PHRASE_RES))"
  by (simp add: V3_PHRASE_RES_def V3_PHRASES_def color_tag_def font_tag_def)

lemma assertion_lemma:
  assumes "re_match (hd V3_PHRASE_RES) d = Some m"
    and "captured m ''preposition'' \<noteq> Some ''to''"
    and "captured m ''preposition'' \<noteq> Some ''from''"
  shows "parse_v3 d = Inl AssertionError"
  using assms re_match_names[OF assms(1)] hd_V3_names
  by (simp add: parse_v3_def hd_V3 in_groupdict_def getitem_def)

lemma star_greedy_skip:
  "list_all (atom_ok a) p \<Longrightarrow> star_greedy a (i + length p, s) k = Some r \<Longrightarrow>
     star_greedy a (i, p @ s) k = Some r"
proof (induction p arbitrary: i)
  case Nil
  then show ?case by simp
next
  case (Cons x p)
  from Cons.prems have "star_greedy a (Suc i + length p, s) k = Some r" by simp
  with Cons.IH[of "Suc i"] Cons.prems(1) have "star_greedy a (Suc i, p @ s) k = Some r" by simp
  with Cons.prems(1) show ?case by simp
qed

lemma prep_exists:
  assumes "list_all (atom_ok AnyChar) p"
  shows "\<exists>n. re_match (hd V3_PHRASE_RES) (prep_text p) = Some n
           \<and> captured n ''preposition'' = Some p"
proof -
  define REST where "REST = cat [Lit ''</font> <b>'',
          color_tag, Group ''object'' (Star AnyChar), Lit ''</b>'', font_tag, color_tag,
          Opt (cat [Lit '' - '', Group ''weapon'' (Star AnyChar)]), Lit '' - '',
          alts (Lit ''Glances Off'') [Lit ''Grazes'', Lit ''Hits'', Lit ''Penetrates'',
            Lit ''Smashes'', Lit ''Wrecks''], Eol]"
  define SUF where "SUF = ''</font> <b><color>X</b><font><color> - Hits''"
  define PRE where "PRE = ''<color><b>5</b> <color><font>''"
  have shape: "hd V3_PHRASE_RES =
     Seq color_tag (Seq (Lit ''<b>'') (Seq (Group ''damage'' (Plus (OneOf digits)))
       (Seq (Lit ''</b> '') (Seq color_tag (Seq font_tag
         (Seq (Group ''preposition'' (Star AnyChar)) REST))))))"
    by (simp add: V3_PHRASE_RES_def V3_PHRASES_def REST_def)
  have pre: "rx (Seq color_tag (Seq (Lit ''<b>'') (Seq (Group ''damage'' (Plus (OneOf digits)))
       (Seq (Lit ''</b> '') (Seq color_tag (Seq font_tag X))))))
       (0, PRE @ t) c k = rx X (length PRE, t) (c(''damage'' \<mapsto> ''5'')) k" for X t c k
    by (simp add: PRE_def color_tag_def font_tag_def digits_def)
  have tail: "star_greedy AnyChar (i + length p, SUF)
      (\<lambda>p'. rx REST p' (c(''preposition'' \<mapsto> take (fst p' - i) (p @ SUF))) (\<lambda>q c'. Some c'))
     = Some (c(''preposition'' \<mapsto> p, ''object'' \<mapsto> ''X''))" for i c
    by (simp add: REST_def SUF_def color_tag_def font_tag_def)
  have grp: "rx (Seq (Group ''preposition'' (Star AnyChar)) REST) (i, p @ SUF) c (\<lambda>q c'. Some c')
     = Some (c(''preposition'' \<mapsto> p, ''object'' \<mapsto> ''X''))" for i c
    using star_greedy_skip[OF assms tail[of i c]] by simp
  have "rx (hd V3_PHRASE_RES) (0, prep_text p) Map.empty (\<lambda>q c'. Some c')
     = Some [''damage'' \<mapsto> ''5'', ''preposition'' \<mapsto> p, ''object'' \<mapsto> ''X'']"
    unfolding shape prep_text_def PRE_def[symmetric] SUF_def[symmetric]
    by (simp only: pre grp)
  then show ?thesis
    by (simp add: re_match_def)
qed

lemma is_None_names: "map_option names x = None \<Longrightarrow> x = None"
  by simp

section \<open>Evaluations on concrete lines\<close>

lemma ev_info_match:
  "map_option (\<lambda>m. (captured m ''type'', captured m ''data'', timestamp_of m))
     (re_match LOG_LINE_RE line_info) = Some (Some ''info'', Some ''hello there'', Inr time_hello)"
  by code_simp

lemma ev_bogus_match:
  "map_option (\<lambda>m. (captured m ''type'', captured m ''data'', timestamp_of m))
     (re_match LOG_LINE_RE line_bogus) =
   Some (Some ''bogus'', Some ''some text'',
     Inr \<lparr>year = 2010, month = 1, day = 31, hour = 12, minute = 1, second = 0\<rparr>)"
  by code_simp

lemma ev_month13_match:
  "map_option (\<lambda>m. (captured m ''type'', timestamp_of m)) (re_match LOG_LINE_RE line_month13) =
   Some (Some ''bogus'', Inl (ValueError ''month must be in 1..12''))"
  by code_simp

lemma ev_month13: "parse_line line_month13 LOG_UNKNOWN = Inl (ValueError ''month must be in 1..12'')"
  by code_simp

lemma ev_header: "read_header (header_lines @ [line_info, ''  more text'', line_bogus, line_notify])
   = Inr ((Some ''Some Pilot'', time_start), [line_info, ''  more text'', line_bogus, line_notify])"
  by code_simp

lemma ev_xs: "read_entries LOG_UNKNOWN [line_info, ''  more text''] = Inr (LOG_UNKNOWN, [entry_hello])"
  by code_simp

lemma ev_bogus: "parse_line (rstrip line_bogus) LOG_UNKNOWN = Inl (unknown_category ''bogus'')"
  by code_simp

lemma ev_conts: "list_all continuation_line [''  more text'', [], ''(info) not a header'']"
  by code_simp

lemma ev_cont: "map_option names (re_match LOG_LINE_RE ''  more text'') = None"
  by code_simp

lemma ev_two: "Log_init None time_start ([line_info] @ [line_notify]) =
   Inr \<lparr>listener = None, start_time = time_start, log_type = LOG_UNKNOWN,
        log_entries = [entry_hello, entry_bye]\<rparr>"
  by code_simp

lemma ev_gib: "map_option names (first_match V3_PHRASE_RES ''gibberish'') = None"
  "map_option names (first_match SIMPLIFIED_PHRASE_RES ''gibberish'') = None"
  "map_option names (first_match VERB_PHRASE_RES ''gibberish'') = None"
  by code_simp+

lemma ev_v3_none: "map_option names (first_match V3_PHRASE_RES ''Your Missile misses Enemy Frigate'') = None"
  by code_simp

lemma ev_simple_ok: "parse_simple ''Your Missile misses Enemy Frigate'' =
   Inr \<lparr>target = Some ''Enemy Frigate'', attacker = Some ''You'',
        weapon = Some ''Your Missile'', damage = PyInt 0\<rparr>"
  by code_simp

lemma ev_v3_log: "read_entries V3 [line_miss, ''  more text'', line_info] = Inr (V3, [entry_miss, entry_hello])"
  by code_simp

lemma ev_prep: "map_option (\<lambda>m. captured m ''preposition'') (re_match (hd V3_PHRASE_RES) assert_text)
   = Some (Some ''a misses b'')"
  by code_simp

lemma ev_combat_line: "parse_line line_miss LOG_UNKNOWN = Inr (Some entry_miss, V3)"
  by code_simp

lemma ev_miss_match:
  "map_option (\<lambda>m. (captured m ''type'', captured m ''data'', timestamp_of m))
     (re_match LOG_LINE_RE line_miss) =
   Some (Some ''combat'', Some ''Enemy misses you completely'',
     Inr \<lparr>year = 2010, month = 1, day = 31, hour = 12, minute = 2, second = 0\<rparr>)"
  by code_simp

section \<open>A locked dialect\<close>

text \<open>
  Claim C3. Once the dialect of a log is a concrete value, a combat text is parsed by
  the parser of that dialect alone and the dialect stays what it is: for one text, and
  for every list of further lines of the log, whose combat entries are all parsed by
  that dialect. A text that none of the dialect's phrases matches is a
  \<^verbatim>\<open>ValueError\<close>, whatever the other dialects would do with it.
\<close>

theorem locked_dialect:
  "lt \<noteq> LOG_UNKNOWN \<Longrightarrow>
     parse_data lt d = bnd (dialect_parser lt d) (\<lambda>c. Inr (c, lt))
     \<and> (first_match (dialect_phrases lt) d = None \<longrightarrow>
          (\<exists>msg. parse_data lt d = Inl (ValueError msg)))
     \<and> (read_entries lt ls = Inr (lt', es) \<longrightarrow> lt' = lt \<and> list_all (parsed_by lt) es)"
  using no_phrase_error[of lt d] read_entries_locked[of lt ls lt' es]
  by (auto simp: parse_data_locked)

theorem locked_dialect_witness:
  "V3 \<noteq> LOG_UNKNOWN
   \<and> first_match (dialect_phrases V3) ''Your Missile misses Enemy Frigate'' = None
   \<and> parse_simple ''Your Missile misses Enemy Frigate'' =
       Inr \<lparr>target = Some ''Enemy Frigate'', attacker = Some ''You'',
            weapon = Some ''Your Missile'', damage = PyInt 0\<rparr>
   \<and> (\<exists>msg. parse_data V3 ''Your Missile misses Enemy Frigate'' = Inl (ValueError msg))
   \<and> read_entries V3 [line_miss, ''  more text'', line_info] = Inr (V3, [entry_miss, entry_hello])
   \<and> list_all (parsed_by V3) [entry_miss, entry_hello]"
proof -
  have n: "first_match (dialect_phrases V3) ''Your Missile misses Enemy Frigate'' = None"
    using ev_v3_none by simp
  have "V3 \<noteq> LOG_UNKNOWN" by simp
  from locked_dialect[OF this, where d = "''Your Missile misses Enemy Frigate''"
      and ls = "[line_miss, ''  more text'', line_info]" and lt' = V3
      and es = "[entry_miss, entry_hello]"] n ev_v3_log ev_simple_ok
  show ?thesis by blast
qed

section \<open>The assertion of the V3 parser\<close>

text \<open>
  Claim C10. When the first V3 phrase (the structured damage line) matches a text and
  the captured preposition is neither \<^verbatim>\<open>to\<close> nor \<^verbatim>\<open>from\<close>, the V3 parser fails its
  assertion, and so does the parse of the text on a log whose dialect is V3 or unknown
  (no other dialect is tried). Such texts exist: for every preposition text without a
  newline there is a text that the phrase matches with that preposition. A text that
  no V3 phrase matches gives the parse error instead.
\<close>

theorem v3_assertion:
  "(re_match (hd V3_PHRASE_RES) d = Some m \<and> captured m ''preposition'' \<noteq> Some ''to''
      \<and> captured m ''preposition'' \<noteq> Some ''from'' \<longrightarrow>
      parse_v3 d = Inl AssertionError \<and> parse_data V3 d = Inl AssertionError
      \<and> parse_data LOG_UNKNOWN d = Inl AssertionError)
   \<and> (\<exists>t n. re_match (hd V3_PHRASE_RES) t = Some n \<and> captured n ''preposition'' \<noteq> Some ''to''
        \<and> captured n ''preposition'' \<noteq> Some ''from'')
   \<and> (CHR 0x0A \<notin> set p \<longrightarrow>
        (\<exists>n. re_match (hd V3_PHRASE_RES) (prep_text p) = Some n
           \<and> captured n ''preposition'' = Some p))
   \<and> (first_match V3_PHRASE_RES d = None \<longrightarrow>
        parse_v3 d = Inl (could_not_parse d '' as V3''))"
proof (intro conjI impI)
  assume "CHR 0x0A \<notin> set p"
  then have "list_all (atom_ok AnyChar) p"
    by (auto simp: list_all_iff)
  then show "\<exists>n. re_match (hd V3_PHRASE_RES) (prep_text p) = Some n
           \<and> captured n ''preposition'' = Some p"
    by (rule prep_exists)
next
  assume a: "re_match (hd V3_PHRASE_RES) d = Some m \<and> captured m ''preposition'' \<noteq> Some ''to''
      \<and> captured m ''preposition'' \<noteq> Some ''from''"
  then show v: "parse_v3 d = Inl AssertionError"
    using assertion_lemma by blast
  then show "parse_data V3 d = Inl AssertionError" "parse_data LOG_UNKNOWN d = Inl AssertionError"
    by (simp_all add: parse_data.simps)
next
  from ev_prep obtain n where "re_match (hd V3_PHRASE_RES) assert_text = Some n"
    "captured n ''preposition'' = Some ''a misses b''"
    by auto
  then show "\<exists>t n. re_match (hd V3_PHRASE_RES) t = Some n \<and> captured n ''preposition'' \<noteq> Some ''to''
        \<and> captured n ''preposition'' \<noteq> Some ''from''"
    by (intro exI[of _ assert_text] exI[of _ n]) simp
next
  assume "first_match V3_PHRASE_RES d = None"
  then show "parse_v3 d = Inl (could_not_parse d '' as V3'')"
    by (simp add: parse_v3_def could_not_parse_def)
qed

theorem v3_assertion_witness:
  "(\<exists>m. re_match (hd V3_PHRASE_RES) assert_text = Some m
       \<and> captured m ''preposition'' = Some ''a misses b'')
   \<and> parse_v3 assert_text = Inl AssertionError
   \<and> parse_data V3 assert_text = Inl AssertionError
   \<and> parse_data LOG_UNKNOWN assert_text = Inl AssertionError
   \<and> first_match V3_PHRASE_RES ''gibberish'' = None
   \<and> parse_v3 ''gibberish'' = Inl (could_not_parse ''gibberish'' '' as V3'')
   \<and> CHR 0x0A \<notin> set ''at''
   \<and> (\<exists>n. re_match (hd V3_PHRASE_RES) (prep_text ''at'') = Some n
         \<and> captured n ''preposition'' = Some ''at'')"
proof -
  have nl: "CHR 0x0A \<notin> set ''at''" by simp
  from ev_prep obtain m where m: "re_match (hd V3_PHRASE_RES) assert_text = Some m"
    "captured m ''preposition'' = Some ''a misses b''"
    by auto
  have g: "first_match V3_PHRASE_RES ''gibberish'' = None"
    using ev_gib(1) by simp
  have ne: "captured m ''preposition'' \<noteq> Some ''to''"
    "captured m ''preposition'' \<noteq> Some ''from''"
    using m(2) by simp_all
  from v3_assertion[where d = assert_text and m = m] m ne
    v3_assertion[where d = "''gibberish''" and p = "''at''"] g nl
  show ?thesis
    by blast
qed

section \<open>Continuation lines\<close>

text \<open>
  Claim C7. A line that does not match the pattern of an entry gives \<^verbatim>\<open>None\<close> and
  leaves the dialect alone; continuation lines put anywhere into a file change neither
  the result of reading the entries nor the log built from them; the log of a file is
  the log of the file without its continuation lines (so the entries, their texts and
  their number are the same).
\<close>

theorem continuation_lines_dropped:
  "(re_match LOG_LINE_RE line = None \<longrightarrow> parse_line line lt = Inr (None, lt))
   \<and> (list_all continuation_line cs \<longrightarrow>
        read_entries lt (xs @ cs @ ys) = read_entries lt (xs @ ys)
        \<and> Log_init lis st (xs @ cs @ ys) = Log_init lis st (xs @ ys))
   \<and> Log_init lis st ls = Log_init lis st (filter (\<lambda>l. \<not> continuation_line l) ls)"
proof (intro conjI impI)
  assume "re_match LOG_LINE_RE line = None"
  then show "parse_line line lt = Inr (None, lt)" by (rule parse_line_None)
next
  assume c: "list_all continuation_line cs"
  have *: "\<And>t. read_entries t (xs @ cs @ ys) = read_entries t (xs @ ys)"
    by (simp add: read_entries_append[of _ xs] read_entries_continuations[OF c])
  show "read_entries lt (xs @ cs @ ys) = read_entries lt (xs @ ys)" by (rule *)
  show "Log_init lis st (xs @ cs @ ys) = Log_init lis st (xs @ ys)"
    by (simp add: Log_init_def *)
next
  show "Log_init lis st ls = Log_init lis st (filter (\<lambda>l. \<not> continuation_line l) ls)"
    by (simp add: Log_init_def read_entries_filter)
qed

theorem continuation_lines_dropped_witness:
  "re_match LOG_LINE_RE ''  more text'' = None
   \<and> parse_line ''  more text'' V3 = Inr (None, V3)
   \<and> list_all continuation_line [''  more text'', [], ''(info) not a header'']
   \<and> Log_init None time_start
        ([line_info] @ [''  more text'', [], ''(info) not a header''] @ [line_notify]) =
      Inr \<lparr>listener = None, start_time = time_start, log_type = LOG_UNKNOWN,
           log_entries = [entry_hello, entry_bye]\<rparr>"
proof -
  have n: "re_match LOG_LINE_RE ''  more text'' = None"
    using ev_cont by simp
  from continuation_lines_dropped[where line = "''  more text''" and lt = V3
      and cs = "[''  more text'', [], ''(info) not a header'']" and xs = "[line_info]"
      and ys = "[line_notify]" and lis = None and st = time_start] n ev_conts ev_two
  show ?thesis by simp
qed

section \<open>All or nothing\<close>

text \<open>
  A file whose second entry has an unknown category tag: the error of \<^verbatim>\<open>parse_log\<close>
  carries the tag, but neither the raw line nor its text.
\<close>

theorem all_or_nothing_counterexample:
  "parse_log (header_lines @ [line_info, ''  more text'', line_bogus, line_notify]) =
     Inl (ValueError (''Unknown log entry type '' @ [CHR 0x22] @ ''bogus'' @ [CHR 0x22] @ ''.''))
   \<and> \<not> carries (''Unknown log entry type '' @ [CHR 0x22] @ ''bogus'' @ [CHR 0x22] @ ''.'')
         ''[ 2010.01.31 12:01:00 ] (bogus) some text''
   \<and> \<not> carries (''Unknown log entry type '' @ [CHR 0x22] @ ''bogus'' @ [CHR 0x22] @ ''.'')
         ''some text''"
proof -
  have "parse_log (header_lines @ [line_info, ''  more text'', line_bogus, line_notify]) =
     Inl (ValueError (''Unknown log entry type '' @ [CHR 0x22] @ ''bogus'' @ [CHR 0x22] @ ''.''))"
    by code_simp
  moreover have "\<not> carries (''Unknown log entry type '' @ [CHR 0x22] @ ''bogus'' @ [CHR 0x22] @ ''.'')
         ''[ 2010.01.31 12:01:00 ] (bogus) some text''"
    by code_simp
  moreover have "\<not> carries (''Unknown log entry type '' @ [CHR 0x22] @ ''bogus'' @ [CHR 0x22] @ ''.'')
         ''some text''"
    by code_simp
  ultimately show ?thesis by blast
qed

text \<open>
  Claim C8, amended. The construction of a log is all or nothing: when a line fails
  after the lines before it were read, the construction (and \<^verbatim>\<open>parse_log\<close>, when the
  header was read) ends with the error of that line and gives no log; a log is given
  only when every line was parsed. The error of a combat text that no dialect matches
  carries that text (the part of the line after the header).
\<close>

theorem all_or_nothing:
  "(read_entries LOG_UNKNOWN xs = Inr (lt, es) \<and> parse_line (rstrip l) lt = Inl e \<longrightarrow>
      Log_init lis st (xs @ l # ys) = Inl e
      \<and> (read_header f = Inr ((lis, st), xs @ l # ys) \<longrightarrow> parse_log f = Inl e))
   \<and> (Log_init lis st (xs @ l # ys) = Inr L \<longrightarrow>
      (\<exists>lt es r. read_entries LOG_UNKNOWN xs = Inr (lt, es)
         \<and> parse_line (rstrip l) lt = Inr r))
   \<and> (first_match V3_PHRASE_RES d = None \<and> first_match SIMPLIFIED_PHRASE_RES d = None
       \<and> first_match VERB_PHRASE_RES d = None \<longrightarrow>
      parse_data LOG_UNKNOWN d = Inl (could_not_parse d '' as complex.'')
      \<and> (\<exists>msg. could_not_parse d '' as complex.'' = ValueError msg \<and> carries msg d))"
proof (intro conjI impI)
  assume a: "read_entries LOG_UNKNOWN xs = Inr (lt, es) \<and> parse_line (rstrip l) lt = Inl e"
  then have *: "read_entries LOG_UNKNOWN (xs @ l # ys) = Inl e"
    using read_entries_fail by blast
  then show i: "Log_init lis st (xs @ l # ys) = Inl e"
    by (simp add: Log_init_def)
  assume "read_header f = Inr ((lis, st), xs @ l # ys)"
  with i show "parse_log f = Inl e"
    by (simp add: parse_log_def)
next
  assume "Log_init lis st (xs @ l # ys) = Inr L"
  then obtain res where "read_entries LOG_UNKNOWN (xs @ l # ys) = Inr res"
    by (auto simp: Log_init_def bnd_eq_Inr)
  then show "\<exists>lt es r. read_entries LOG_UNKNOWN xs = Inr (lt, es)
         \<and> parse_line (rstrip l) lt = Inr r"
    by (rule read_entries_ok)
next
  assume a: "first_match V3_PHRASE_RES d = None \<and> first_match SIMPLIFIED_PHRASE_RES d = None
       \<and> first_match VERB_PHRASE_RES d = None"
  then show "parse_data LOG_UNKNOWN d = Inl (could_not_parse d '' as complex.'')"
    using undetected_error by blast
  have "carries (''Could not parse '' @ quotes3 @ d @ quotes3 @ '' as complex.'') d"
    using carries_append[of "''Could not parse '' @ quotes3" d "quotes3 @ '' as complex.''"]
    by simp
  then show "\<exists>msg. could_not_parse d '' as complex.'' = ValueError msg \<and> carries msg d"
    by (simp add: could_not_parse_def)
qed

theorem all_or_nothing_witness:
  "read_entries LOG_UNKNOWN [line_info, ''  more text''] = Inr (LOG_UNKNOWN, [entry_hello])
   \<and> parse_line (rstrip line_bogus) LOG_UNKNOWN = Inl (unknown_category ''bogus'')
   \<and> Log_init (Some ''Some Pilot'') time_start
        ([line_info, ''  more text''] @ line_bogus # [line_notify]) =
       Inl (unknown_category ''bogus'')
   \<and> parse_log (header_lines @ [line_info, ''  more text'', line_bogus, line_notify]) =
       Inl (unknown_category ''bogus'')
   \<and> parse_data LOG_UNKNOWN ''gibberish'' = Inl (could_not_parse ''gibberish'' '' as complex.'')
   \<and> (\<exists>msg. could_not_parse ''gibberish'' '' as complex.'' = ValueError msg
         \<and> carries msg ''gibberish'')
   \<and> Log_init None time_start ([line_info] @ line_notify # []) =
       Inr \<lparr>listener = None, start_time = time_start, log_type = LOG_UNKNOWN,
            log_entries = [entry_hello, entry_bye]\<rparr>
   \<and> (\<exists>lt es r. read_entries LOG_UNKNOWN [line_info] = Inr (lt, es)
         \<and> parse_line (rstrip line_notify) lt = Inr r)"
proof -
  have g: "first_match V3_PHRASE_RES ''gibberish'' = None"
    "first_match SIMPLIFIED_PHRASE_RES ''gibberish'' = None"
    "first_match VERB_PHRASE_RES ''gibberish'' = None"
    using ev_gib by simp_all
  have h: "read_header (header_lines @ [line_info, ''  more text'', line_bogus, line_notify])
     = Inr ((Some ''Some Pilot'', time_start), [line_info, ''  more text''] @ line_bogus # [line_notify])"
    using ev_header by simp
  have two: "Log_init None time_start ([line_info] @ line_notify # []) =
       Inr \<lparr>listener = None, start_time = time_start, log_type = LOG_UNKNOWN,
            log_entries = [entry_hello, entry_bye]\<rparr>"
    using ev_two by simp
  from all_or_nothing[where xs = "[line_info, ''  more text'']" and lt = LOG_UNKNOWN
      and es = "[entry_hello]" and l = line_bogus and e = "unknown_category ''bogus''"
      and lis = "Some ''Some Pilot''" and st = time_start and ys = "[line_notify]"
      and f = "header_lines @ [line_info, ''  more text'', line_bogus, line_notify]"
      and d = "''gibberish''"]
    ev_xs ev_bogus h g
  have a: "Log_init (Some ''Some Pilot'') time_start
        ([line_info, ''  more text''] @ line_bogus # [line_notify]) =
       Inl (unknown_category ''bogus'')"
    "parse_log (header_lines @ [line_info, ''  more text'', line_bogus, line_notify]) =
       Inl (unknown_category ''bogus'')"
    "parse_data LOG_UNKNOWN ''gibberish'' = Inl (could_not_parse ''gibberish'' '' as complex.'')"
    "\<exists>msg. could_not_parse ''gibberish'' '' as complex.'' = ValueError msg
         \<and> carries msg ''gibberish''"
    by blast+
  from all_or_nothing[where xs = "[line_info]" and l = line_notify and lis = None
      and st = time_start and ys = "[]"
      and L = "\<lparr>listener = None, start_time = time_start, log_type = LOG_UNKNOWN,
            log_entries = [entry_hello, entry_bye]\<rparr>"] two
  have b: "\<exists>lt es r. read_entries LOG_UNKNOWN [line_info] = Inr (lt, es)
         \<and> parse_line (rstrip line_notify) lt = Inr r"
    by blast
  from a b two ev_xs ev_bogus show ?thesis by blast
qed

section \<open>Categories\<close>

text \<open>
  A line in the form of an entry with the tag \<^verbatim>\<open>bogus\<close> and the month 13: the line
  fails with the error of the timestamp, not with the error of the unknown category.
\<close>

theorem category_mapping_counterexample:
  "map_option (\<lambda>m. captured m ''type'') (re_match LOG_LINE_RE line_month13) = Some (Some ''bogus'')
   \<and> category_table ''bogus'' = None
   \<and> parse_line line_month13 LOG_UNKNOWN = Inl (ValueError ''month must be in 1..12'')
   \<and> parse_line line_month13 LOG_UNKNOWN \<noteq> Inl (unknown_category ''bogus'')"
proof -
  have "map_option (\<lambda>m. captured m ''type'') (re_match LOG_LINE_RE line_month13) = Some (Some ''bogus'')"
    by code_simp
  moreover have "category_table ''bogus'' = None"
    by (simp add: category_table_def)
  moreover have "ValueError ''month must be in 1..12'' \<noteq> unknown_category ''bogus''"
    by (simp add: unknown_category_def)
  ultimately show ?thesis using ev_month13 by simp
qed

text \<open>
  Claim C9, amended. For every line that matches the pattern of an entry and whose
  timestamp fields are a valid date and time: a tag outside the table fails with the
  unknown-category error and gives no entry; a tag of the table other than
  \<^verbatim>\<open>combat\<close> gives an entry of the category the table names; the tag \<^verbatim>\<open>combat\<close>
  gives what the construction of the combat entry gives; and whatever the line gives
  is an entry of the category the table names for its tag.
\<close>

theorem category_mapping:
  assumes "re_match LOG_LINE_RE line = Some m" and "timestamp_of m = Inr ts"
    and "captured m ''type'' = Some g"
  shows "(category_table g = None \<longrightarrow> parse_line line lt = Inl (unknown_category g))
    \<and> (category_table g = Some t \<and> t \<noteq> COMBAT \<longrightarrow>
         parse_line line lt =
           Inr (Some \<lparr>timestamp = ts, entry_type = t, data = captured m ''data'',
                       combat = None\<rparr>, lt))
    \<and> (category_table g = Some COMBAT \<longrightarrow>
         parse_line line lt =
           bnd (CombatLogEntry ts (captured m ''data'') lt) (\<lambda>(e, lt'). Inr (Some e, lt')))
    \<and> (parse_line line lt = Inr (r, lt') \<longrightarrow>
         (\<exists>e. r = Some e \<and> category_table g = Some (entry_type e)))"
proof (intro conjI impI)
  assume "category_table g = None"
  then show "parse_line line lt = Inl (unknown_category g)"
    using parse_line_header[OF assms, of lt]
    by (auto simp: category_table_def split: if_splits)
next
  assume "category_table g = Some t \<and> t \<noteq> COMBAT"
  then show "parse_line line lt =
           Inr (Some \<lparr>timestamp = ts, entry_type = t, data = captured m ''data'',
                       combat = None\<rparr>, lt)"
    using parse_line_header[OF assms, of lt]
    by (auto simp: category_table_def split: if_splits)
next
  assume "category_table g = Some COMBAT"
  then have "g = ''combat''"
    by (auto simp: category_table_def split: if_splits)
  then show "parse_line line lt =
           bnd (CombatLogEntry ts (captured m ''data'') lt) (\<lambda>(e, lt'). Inr (Some e, lt'))"
    using parse_line_header[OF assms, of lt] by simp
next
  assume r: "parse_line line lt = Inr (r, lt')"
  show "\<exists>e. r = Some e \<and> category_table g = Some (entry_type e)"
  proof (cases "g = ''combat''")
    case True
    with r parse_line_header[OF assms, of lt] obtain e where
      "CombatLogEntry ts (captured m ''data'') lt = Inr (e, lt')" "r = Some e"
      by (auto simp: bnd_eq_Inr)
    with True CombatLogEntry_type[of ts _ lt e lt'] show ?thesis
      by (simp add: category_table_def)
  next
    case False
    with r parse_line_header[OF assms, of lt] show ?thesis
      by (cases "category_table g") auto
  qed
qed

theorem category_mapping_witness:
  "(\<exists>m. re_match LOG_LINE_RE line_info = Some m \<and> timestamp_of m = Inr time_hello
        \<and> captured m ''type'' = Some ''info'')
   \<and> category_table ''info'' = Some INFO
   \<and> parse_line line_info LOG_UNKNOWN = Inr (Some entry_hello, LOG_UNKNOWN)
   \<and> (\<exists>m ts. re_match LOG_LINE_RE line_bogus = Some m \<and> timestamp_of m = Inr ts
        \<and> captured m ''type'' = Some ''bogus'')
   \<and> category_table ''bogus'' = None
   \<and> parse_line line_bogus LOG_UNKNOWN = Inl (unknown_category ''bogus'')
   \<and> (\<exists>m ts. re_match LOG_LINE_RE line_miss = Some m \<and> timestamp_of m = Inr ts
        \<and> captured m ''type'' = Some ''combat'')
   \<and> category_table ''combat'' = Some COMBAT
   \<and> parse_line line_miss LOG_UNKNOWN = Inr (Some entry_miss, V3)
   \<and> category_table ''combat'' = Some (entry_type entry_miss)"
proof -
  from ev_info_match obtain m1 where m1: "re_match LOG_LINE_RE line_info = Some m1"
    "timestamp_of m1 = Inr time_hello" "captured m1 ''type'' = Some ''info''"
    "captured m1 ''data'' = Some ''hello there''"
    by auto
  from ev_bogus_match obtain m2 ts2 where m2: "re_match LOG_LINE_RE line_bogus = Some m2"
    "timestamp_of m2 = Inr ts2" "captured m2 ''type'' = Some ''bogus''"
    by auto
  from ev_miss_match obtain m3 ts3 where m3: "re_match LOG_LINE_RE line_miss = Some m3"
    "timestamp_of m3 = Inr ts3" "captured m3 ''type'' = Some ''combat''"
    by auto
  have t: "category_table ''info'' = Some INFO" "category_table ''bogus'' = None"
    "category_table ''combat'' = Some COMBAT"
    by (simp_all add: category_table_def)
  from category_mapping[OF m1(1,2,3), where t = INFO and lt = LOG_UNKNOWN] t m1(4)
  have p1: "parse_line line_info LOG_UNKNOWN = Inr (Some entry_hello, LOG_UNKNOWN)"
    by (simp add: entry_hello_def)
  from category_mapping[OF m2, where lt = LOG_UNKNOWN] t
  have p2: "parse_line line_bogus LOG_UNKNOWN = Inl (unknown_category ''bogus'')"
    by simp
  from category_mapping[OF m3, where lt = LOG_UNKNOWN and r = "Some entry_miss" and lt' = V3] ev_combat_line
  have p3: "category_table ''combat'' = Some (entry_type entry_miss)"
    by simp
  from m1 m2 m3 t p1 p2 p3 ev_combat_line show ?thesis by blast
qed

end
